theory Spec2Isabelle
  imports
    Complex_Main
    "HOL-Library.Product_Lexorder"
    "HOL-Library.Option_ord"
    "HOL-Library.List_Lexorder"
    "HOL-Library.Multiset"
begin

section \<open>Text and cells\<close>

text \<open>
  A Python \<^verbatim>\<open>str\<close> is a sequence of Unicode code points; it is modelled as a list of
  natural numbers, one per code point. \<open>u\<close> turns an ASCII literal into such a list.
  With the theory List_Lexorder of the library the order on these lists is the lexicographic
  order by code point, which is how Python compares strings.
\<close>

type_synonym pystr = "nat list"

definition u :: "string \<Rightarrow> pystr" where
  "u s = map of_char s"

text \<open>
  The characters that \<^verbatim>\<open>str.strip()\<close> removes and that \<^verbatim>\<open>\s\<close> matches in a \<^verbatim>\<open>str\<close>
  pattern (CPython's whitespace table).
\<close>

definition is_space :: "nat \<Rightarrow> bool" where
  "is_space c \<longleftrightarrow>
     (9 \<le> c \<and> c \<le> 13) \<or> (28 \<le> c \<and> c \<le> 32) \<or> c = 0x85 \<or> c = 0xA0 \<or> c = 0x1680 \<or>
     (0x2000 \<le> c \<and> c \<le> 0x200A) \<or> c = 0x2028 \<or> c = 0x2029 \<or> c = 0x202F \<or>
     c = 0x205F \<or> c = 0x3000"

text \<open>
  A cell of an extracted table is missing (\<^verbatim>\<open>NaN\<close>, \<^verbatim>\<open>pd.NA\<close>), a string, or a number.
  Every column the pipeline reads goes through \<^verbatim>\<open>astype("string")\<close> first, so a numeric
  cell is represented by the text that conversion gives it (\<^verbatim>\<open>123.0\<close> for the float 123):
  \<open>Num s\<close> is a number printed as \<open>s\<close>. It differs from \<open>Str s\<close> only where the source
  compares a cell with a string, as in \<^verbatim>\<open>c not in df.columns\<close>.
\<close>

datatype cell = NA | Str pystr | Num pystr

fun astype_string :: "cell \<Rightarrow> pystr option" where
  "astype_string NA = None"
| "astype_string (Str s) = Some s"
| "astype_string (Num s) = Some s"

fun fillna_empty :: "pystr option \<Rightarrow> pystr" where
  "fillna_empty None = []"
| "fillna_empty (Some s) = s"

definition str_strip :: "pystr \<Rightarrow> pystr" where
  "str_strip s = rev (dropWhile is_space (rev (dropWhile is_space s)))"

text \<open>\<^verbatim>\<open>re.sub(r"\s+", " ", s)\<close>: every maximal run of whitespace becomes one space.\<close>

function sub_ws_runs :: "pystr \<Rightarrow> pystr" where
  "sub_ws_runs [] = []"
| "sub_ws_runs (c # cs) =
     (if is_space c then 32 # sub_ws_runs (dropWhile is_space cs) else c # sub_ws_runs cs)"
  by pat_completeness auto
termination
  by (relation "measure length") (auto simp: length_dropWhile_le less_Suc_eq_le)

text \<open>
  \<^verbatim>\<open>re.sub(r"\.0$", "", s)\<close>: without \<^verbatim>\<open>MULTILINE\<close>, \<^verbatim>\<open>$\<close> matches at the end of the
  string and before a newline that is the last character.
\<close>

definition sub_dot0_end :: "pystr \<Rightarrow> pystr" where
  "sub_dot0_end s =
     (let n = length s in
      if 2 \<le> n \<and> drop (n - 2) s = [46, 48] then take (n - 2) s
      else if 3 \<le> n \<and> drop (n - 3) s = [46, 48, 10] then take (n - 3) s @ [10]
      else s)"

definition empty_to_na :: "pystr \<Rightarrow> pystr option" where
  "empty_to_na s = (if s = [] then None else Some s)"

section \<open>Field normalisation\<close>

text \<open>
  The three functions of the source work on a \<^verbatim>\<open>pd.Series\<close>, element by element; the
  element function is given first and the series function maps it. None of the pandas
  calls they make can raise (\<^verbatim>\<open>to_numeric\<close> is called with \<^verbatim>\<open>errors="coerce"\<close>), so the
  result type has a missing value and no error.
\<close>

definition clean_text :: "cell \<Rightarrow> pystr option" where
  "clean_text c = empty_to_na (str_strip (sub_ws_runs (fillna_empty (astype_string c))))"

definition clean_text_series :: "cell list \<Rightarrow> pystr option list" where
  "clean_text_series s = map clean_text s"

definition clean_code :: "cell \<Rightarrow> pystr option" where
  "clean_code c = empty_to_na (sub_dot0_end (str_strip (fillna_empty (astype_string c))))"

definition clean_code_series :: "cell list \<Rightarrow> pystr option list" where
  "clean_code_series s = map clean_code s"

text \<open>
  \<^verbatim>\<open>pd.to_numeric(x, errors="coerce")\<close> is pandas' parser, not code of this repository:
  the functions that call it take it as the parameter \<open>num\<close>, from a string to a number
  or to missing. Numbers are exact rationals here; the rounding of binary floating point
  is not modelled. The source applies it to the output of \<^verbatim>\<open>clean_text_series\<close>, a
  series of strings and missing values, on which \<^verbatim>\<open>astype("string")\<close> changes nothing.
\<close>

definition to_number :: "(pystr \<Rightarrow> 'n option) \<Rightarrow> pystr option \<Rightarrow> 'n option" where
  "to_number num x =
     (let x1 = fillna_empty x;
          x2 = map (\<lambda>c. if c = 0xA0 then 32 else c) x1;
          x3 = filter (\<lambda>c. c \<noteq> 32) x2;
          x4 = map (\<lambda>c. if c = 44 then 46 else c) x3
      in num x4)"

definition to_number_series :: "(pystr \<Rightarrow> 'n option) \<Rightarrow> pystr option list \<Rightarrow> 'n option list" where
  "to_number_series num s = map (to_number num) s"

text \<open>
  A concrete parser for the plain decimal literals: an optional sign, digits, and an
  optional fraction after a point, with at least one digit. It is what \<^verbatim>\<open>pd.to_numeric\<close>
  computes on such literals and on strings that hold no number at all; it is used to
  evaluate the functions on concrete inputs.
\<close>

definition ascii_digit :: "nat \<Rightarrow> bool" where
  "ascii_digit c \<longleftrightarrow> 48 \<le> c \<and> c \<le> 57"

definition digits_val :: "pystr \<Rightarrow> nat" where
  "digits_val ds = foldl (\<lambda>a c. 10 * a + (c - 48)) 0 ds"

definition to_numeric :: "pystr \<Rightarrow> rat option" where
  "to_numeric s =
     (let (neg, body) =
            (case s of
               [] \<Rightarrow> (False, s)
             | c # r \<Rightarrow> if c = 45 then (True, r) else if c = 43 then (False, r) else (False, s));
          ip = takeWhile ascii_digit body;
          rest = dropWhile ascii_digit body;
          (fp, ok) =
            (case rest of
               [] \<Rightarrow> ([], True)
             | c # r \<Rightarrow> if c = 46 \<and> list_all ascii_digit r then (r, True) else ([], False))
      in if ok \<and> (ip \<noteq> [] \<or> fp \<noteq> [])
         then Some ((if neg then - 1 else 1) *
                    (of_nat (digits_val ip) + of_nat (digits_val fp) / 10 ^ length fp))
         else None)"

section \<open>Table selector\<close>

text \<open>
  A raw table is a \<^verbatim>\<open>DataFrame\<close> as the table extractor returns it: the column labels and
  the rows of cells. \<^verbatim>\<open>len(tbl)\<close> is the number of rows, \<^verbatim>\<open>len(tbl.columns)\<close> the number
  of labels, and \<^verbatim>\<open>tbl.empty\<close> holds when either is 0. The list elements are typed
  \<^verbatim>\<open>pd.DataFrame\<close>, so the test \<^verbatim>\<open>tbl is None\<close> never holds and has no branch here.
\<close>

record raw_table =
  rt_columns :: "cell list"
  rt_rows :: "cell list list"

definition df_empty :: "raw_table \<Rightarrow> bool" where
  "df_empty t \<longleftrightarrow> rt_rows t = [] \<or> rt_columns t = []"

text \<open>Python's slice \<^verbatim>\<open>xs[start:stop]\<close>, a negative bound counting from the end.\<close>

definition slice_bound :: "int \<Rightarrow> nat \<Rightarrow> nat" where
  "slice_bound i n = (if i < 0 then nat (max (int n + i) 0) else min (nat i) n)"

definition iloc_slice :: "int \<Rightarrow> int \<Rightarrow> 'a list \<Rightarrow> 'a list" where
  "iloc_slice start stop xs =
     (let n = length xs in drop (slice_bound start n) (take (slice_bound stop n) xs))"

definition slice_rules :: "(nat \<times> (int \<times> int)) list" where
  "slice_rules = [(0, (3, - 2)), (2, (1, - 2))]"

definition default_slice :: "int \<times> int" where
  "default_slice = (3, - 2)"

definition slice_rules_get :: "nat \<Rightarrow> int \<times> int" where
  "slice_rules_get i = (case map_of slice_rules i of Some r \<Rightarrow> r | None \<Rightarrow> default_slice)"

text \<open>The loop \<^verbatim>\<open>for i, tbl in enumerate(tables)\<close>, from index \<open>i\<close> on.\<close>

fun choose_from :: "nat \<Rightarrow> raw_table list \<Rightarrow> raw_table option" where
  "choose_from i [] = None"
| "choose_from i (tbl # rest) =
     (if df_empty tbl then choose_from (Suc i) rest
      else if length (rt_rows tbl) \<le> 5 \<or> length (rt_columns tbl) \<le> 2
      then choose_from (Suc i) rest
      else
        (let (start, stop) = slice_rules_get i;
             df = iloc_slice start stop (rt_rows tbl)
         in if df = [] \<or> length df < 2 then choose_from (Suc i) rest
            else Some \<lparr>rt_columns = hd df, rt_rows = tl df\<rparr>))"

definition choose_and_clean_table :: "raw_table list \<Rightarrow> raw_table option" where
  "choose_and_clean_table tables = (if tables = [] then None else choose_from 0 tables)"

text \<open>
  The vocabulary of the specification: a table is eligible when it has more than 5 rows and
  more than 2 columns; the trim of the table at original index \<open>i\<close> keeps rows
  \<open>[1, end - 2)\<close> for \<open>i = 2\<close> and rows \<open>[3, end - 2)\<close> for every other index.
\<close>

definition eligible :: "raw_table \<Rightarrow> bool" where
  "eligible t \<longleftrightarrow> 5 < length (rt_rows t) \<and> 2 < length (rt_columns t)"

definition trim_rows :: "nat \<Rightarrow> 'a list \<Rightarrow> 'a list" where
  "trim_rows i xs = drop (if i = 2 then 1 else 3) (take (length xs - 2) xs)"

definition headed :: "cell list list \<Rightarrow> raw_table" where
  "headed df = \<lparr>rt_columns = hd df, rt_rows = tl df\<rparr>"

definition survives :: "nat \<Rightarrow> raw_table \<Rightarrow> bool" where
  "survives i t \<longleftrightarrow> eligible t \<and> 2 \<le> length (trim_rows i (rt_rows t))"

text \<open>A table of \<open>r\<close> rows and \<open>c\<close> columns whose cell in row \<open>i\<close>, column \<open>j\<close> names both.\<close>

definition grid_table :: "nat \<Rightarrow> nat \<Rightarrow> raw_table" where
  "grid_table r c =
     \<lparr>rt_columns = map (\<lambda>j. Str [99, 48 + j]) [0..<c],
      rt_rows = map (\<lambda>i. map (\<lambda>j. Str [48 + i, 48 + j]) [0..<c]) [0..<r]\<rparr>"

section \<open>Identifier extractor\<close>

text \<open>
  The two patterns are regular expressions of one shape: a sequence of character classes,
  each repeated between a minimum and a maximum number of times, greedily or lazily, one of
  them being group 1. \<open>Item c lo hi greedy grp\<close> is such a repetition. What \<^verbatim>\<open>\d\<close> matches
  and which characters are equal under \<^verbatim>\<open>re.IGNORECASE\<close> is decided by the Unicode tables
  of the Python runtime, which are not code of this repository: they are the parameter
  \<open>U\<close>. \<open>AnyChar\<close> is the dot under \<^verbatim>\<open>re.DOTALL\<close>, which also matches a line break.
\<close>

record ucd =
  uc_decimal :: "nat \<Rightarrow> bool"
  uc_caseless :: "nat \<Rightarrow> nat \<Rightarrow> bool"

datatype cclass = Lit nat | LitI nat | Digit | Space | AnyChar

fun in_class :: "ucd \<Rightarrow> cclass \<Rightarrow> nat \<Rightarrow> bool" where
  "in_class U (Lit p) c \<longleftrightarrow> c = p"
| "in_class U (LitI p) c \<longleftrightarrow> uc_caseless U p c"
| "in_class U Digit c \<longleftrightarrow> uc_decimal U c"
| "in_class U Space c \<longleftrightarrow> is_space c"
| "in_class U AnyChar c \<longleftrightarrow> True"

datatype item = Item (cls: cclass) (lo: nat) (hi: "nat option") (greedy: bool) (grp: bool)

text \<open>
  The numbers of characters a repetition may take at the head of \<open>s\<close>, in the order in which
  a backtracking matcher tries them: longest first when greedy, shortest first when lazy.
\<close>

definition counts :: "ucd \<Rightarrow> item \<Rightarrow> pystr \<Rightarrow> nat list" where
  "counts U it s =
     (let k = length (takeWhile (in_class U (cls it)) s);
          m = (case hi it of None \<Rightarrow> k | Some h \<Rightarrow> min h k);
          ns = [lo it..<Suc m]
      in if greedy it then rev ns else ns)"

fun first_some :: "('a \<Rightarrow> 'b option) \<Rightarrow> 'a list \<Rightarrow> 'b option" where
  "first_some f [] = None"
| "first_some f (x # xs) = (case f x of Some y \<Rightarrow> Some y | None \<Rightarrow> first_some f xs)"

text \<open>
  \<open>match_here\<close> matches a pattern at the head of \<open>s\<close> and returns group 1 of the first match
  in backtracking order; \<open>re_search\<close> is \<^verbatim>\<open>pattern.search(s)\<close>, which takes the leftmost start.
\<close>

fun match_here :: "ucd \<Rightarrow> item list \<Rightarrow> pystr \<Rightarrow> pystr option option" where
  "match_here U [] s = Some None"
| "match_here U (it # its) s =
     first_some
       (\<lambda>n. case match_here U its (drop n s) of
               None \<Rightarrow> None
             | Some g \<Rightarrow> Some (if grp it then Some (take n s) else g))
       (counts U it s)"

definition re_search :: "ucd \<Rightarrow> item list \<Rightarrow> pystr \<Rightarrow> pystr option option" where
  "re_search U p s = first_some (\<lambda>i. match_here U p (drop i s)) [0..<Suc (length s)]"

definition lit_ci :: "pystr \<Rightarrow> item list" where
  "lit_ci w = map (\<lambda>c. Item (LitI c) 1 (Some 1) True False) w"

definition lit :: "nat \<Rightarrow> item" where
  "lit c = Item (Lit c) 1 (Some 1) True False"

text \<open>The two words of the label phrase, as code points (Cyrillic).\<close>

definition NOMER :: pystr where
  "NOMER = [0x41D, 0x43E, 0x43C, 0x435, 0x440]"

definition DOKUMENTA :: pystr where
  "DOKUMENTA = [0x434, 0x43E, 0x43A, 0x443, 0x43C, 0x435, 0x43D, 0x442, 0x430]"

text \<open>
  \<^verbatim>\<open>DOCNO_RE_1\<close> is the two words, case-insensitive, with \<^verbatim>\<open>\s+\<close> between, then \<^verbatim>\<open>.*?\<close>
  and the group \<^verbatim>\<open>(\d{4,9})\<close>; \<^verbatim>\<open>DOCNO_RE_2\<close> is \<^verbatim>\<open>(\d{1,9})\s+\d{2}\.\d{2}\.\d{4}\<close>.
\<close>

definition DOCNO_RE_1 :: "item list" where
  "DOCNO_RE_1 =
     lit_ci NOMER @ [Item Space 1 None True False] @ lit_ci DOKUMENTA @
     [Item AnyChar 0 None False False, Item Digit 4 (Some 9) True True]"

definition DOCNO_RE_2 :: "item list" where
  "DOCNO_RE_2 =
     [Item Digit 1 (Some 9) True True, Item Space 1 None True False,
      Item Digit 2 (Some 2) True False, lit 46, Item Digit 2 (Some 2) True False, lit 46,
      Item Digit 4 (Some 4) True False]"

text \<open>
  The text of a document: \<^verbatim>\<open>"\n".join((page.extract_text() or "") for page in pages)\<close>.
  Reading the file is outside the model; the page texts are the input.
\<close>

definition join_pages :: "pystr option list \<Rightarrow> pystr" where
  "join_pages pages =
     concat (case map fillna_empty pages of [] \<Rightarrow> [] | p # ps \<Rightarrow> p # map (\<lambda>q. 10 # q) ps)"

definition extract_doc_number :: "ucd \<Rightarrow> pystr option list \<Rightarrow> pystr option" where
  "extract_doc_number U pages =
     (let text = join_pages pages in
      case re_search U DOCNO_RE_1 text of
        Some g \<Rightarrow> g
      | None \<Rightarrow> (case re_search U DOCNO_RE_2 text of Some g \<Rightarrow> g | None \<Rightarrow> None))"

text \<open>
  Tables for concrete inputs: the ASCII digits, and the case pairs of the ASCII letters and
  of the basic Cyrillic block.
\<close>

definition lower_basic :: "nat \<Rightarrow> nat" where
  "lower_basic c =
     (if 65 \<le> c \<and> c \<le> 90 then c + 32
      else if 0x410 \<le> c \<and> c \<le> 0x42F then c + 0x20
      else if 0x400 \<le> c \<and> c \<le> 0x40F then c + 0x50
      else c)"

definition ucd_basic :: ucd where
  "ucd_basic = \<lparr>uc_decimal = ascii_digit, uc_caseless = (\<lambda>p c. lower_basic c = lower_basic p)\<rparr>"

text \<open>
  What a pattern matches, said without the matcher: the words \<open>ws\<close>, one per repetition,
  each of a permitted length and made of characters of the class; \<open>cap\<close> is the word of
  group 1.
\<close>

definition fits_item :: "ucd \<Rightarrow> item \<Rightarrow> pystr \<Rightarrow> bool" where
  "fits_item U it w \<longleftrightarrow>
     lo it \<le> length w \<and> (case hi it of None \<Rightarrow> True | Some h \<Rightarrow> length w \<le> h) \<and>
     list_all (in_class U (cls it)) w"

fun cap :: "item list \<Rightarrow> pystr list \<Rightarrow> pystr option" where
  "cap (it # its) (w # ws) = (if grp it then Some w else cap its ws)"
| "cap _ _ = None"

definition re_matches :: "ucd \<Rightarrow> item list \<Rightarrow> pystr \<Rightarrow> pystr option \<Rightarrow> bool" where
  "re_matches U p t g \<longleftrightarrow>
     (\<exists>pre ws rest. t = pre @ concat ws @ rest \<and> list_all2 (fits_item U) p ws \<and> g = cap p ws)"

text \<open>
  The two patterns in the words of the specification. \<open>primary_at U t d\<close>: the text holds the
  label phrase, then anything (line breaks included), then the run \<open>d\<close> of 4 to 9 digits.
  \<open>fallback_at U t d\<close>: the text holds the run \<open>d\<close> of 1 to 9 digits, then whitespace, then a
  date token: two digits, a point, two digits, a point, four digits.
  \<open>fallback_standalone_at\<close> asks in addition that the run stands alone on its left, which
  is how the specification words the fallback.
\<close>

definition primary_at :: "ucd \<Rightarrow> pystr \<Rightarrow> pystr \<Rightarrow> bool" where
  "primary_at U t d \<longleftrightarrow>
     (\<exists>pre l1 w l2 gap rest.
        t = pre @ l1 @ w @ l2 @ gap @ d @ rest \<and>
        list_all2 (uc_caseless U) NOMER l1 \<and> w \<noteq> [] \<and> list_all is_space w \<and>
        list_all2 (uc_caseless U) DOKUMENTA l2 \<and>
        4 \<le> length d \<and> length d \<le> 9 \<and> list_all (uc_decimal U) d)"

definition date_token :: "ucd \<Rightarrow> pystr \<Rightarrow> bool" where
  "date_token U x \<longleftrightarrow>
     (\<exists>dd mm yyyy. x = dd @ [46] @ mm @ [46] @ yyyy \<and>
        length dd = 2 \<and> length mm = 2 \<and> length yyyy = 4 \<and>
        list_all (uc_decimal U) dd \<and> list_all (uc_decimal U) mm \<and> list_all (uc_decimal U) yyyy)"

definition fallback_at :: "ucd \<Rightarrow> pystr \<Rightarrow> pystr \<Rightarrow> bool" where
  "fallback_at U t d \<longleftrightarrow>
     (\<exists>pre w x rest.
        t = pre @ d @ w @ x @ rest \<and>
        1 \<le> length d \<and> length d \<le> 9 \<and> list_all (uc_decimal U) d \<and>
        w \<noteq> [] \<and> list_all is_space w \<and> date_token U x)"

definition fallback_standalone_at :: "ucd \<Rightarrow> pystr \<Rightarrow> pystr \<Rightarrow> bool" where
  "fallback_standalone_at U t d \<longleftrightarrow>
     (\<exists>i\<in>set [0..<Suc (length t)].
        take (length d) (drop i t) = d \<and> 1 \<le> length d \<and> length d \<le> 9 \<and>
        list_all (uc_decimal U) d \<and>
        (i = 0 \<or> \<not> uc_decimal U (t ! (i - 1))) \<and>
        (\<exists>w x rest. drop (i + length d) t = w @ x @ rest \<and> w \<noteq> [] \<and> list_all is_space w \<and>
           date_token U x))"

section \<open>Document table builder\<close>

text \<open>
  An exception of the source is a value of \<open>error\<close>. \<open>ColumnsMissing\<close> is the
  \<^verbatim>\<open>ValueError\<close> that \<^verbatim>\<open>build_doc_df\<close> raises itself; its three arguments are the three
  values its message is formatted from: the path, the list of missing labels and the list
  of the available column labels. \<open>LengthMismatch\<close> is the \<^verbatim>\<open>ValueError\<close> pandas raises on
  \<^verbatim>\<open>df.columns = [...]\<close> when \<^verbatim>\<open>df.loc[:, required]\<close> did not select exactly three columns,
  as it does when a required label occurs more than once in the header.
\<close>

datatype error = ColumnsMissing pystr "pystr list" "cell list" | LengthMismatch nat nat

text \<open>
  The table of one document, as \<^verbatim>\<open>build_doc_df\<close> returns it: the name of its value column,
  which is the document number, and its rows. The code of a row is never missing (rows
  without a code are dropped before grouping), and neither is the value (a sum).
\<close>

record drow =
  d_code :: pystr
  d_label :: "pystr option"
  d_value :: rat

record doc_table =
  doc_col :: pystr
  drows :: "drow list"

text \<open>A row after normalisation and \<^verbatim>\<open>dropna\<close> on the code column, before grouping.\<close>

record crow =
  c_label :: "pystr option"
  c_code :: pystr
  c_value :: "rat option"

definition required :: "pystr list" where
  "required = [[50], [51], [49, 48]]"

text \<open>\<^verbatim>\<open>df.loc[:, labels]\<close>: for each label in turn, every column that carries it.\<close>

definition positions :: "cell list \<Rightarrow> pystr \<Rightarrow> nat list" where
  "positions hdr c = filter (\<lambda>j. hdr ! j = Str c) [0..<length hdr]"

definition loc_columns :: "cell list \<Rightarrow> pystr list \<Rightarrow> nat list" where
  "loc_columns hdr labels = concat (map (positions hdr) labels)"

definition cell_at :: "cell list \<Rightarrow> nat \<Rightarrow> cell" where
  "cell_at r j = (if j < length r then r ! j else NA)"

definition clean_row :: "(pystr \<Rightarrow> rat option) \<Rightarrow> nat \<Rightarrow> nat \<Rightarrow> nat \<Rightarrow> cell list \<Rightarrow> crow option" where
  "clean_row num jl jc jv r =
     (case clean_code (cell_at r jc) of
        None \<Rightarrow> None
      | Some k \<Rightarrow>
          Some \<lparr>c_label = clean_text (cell_at r jl), c_code = k,
                c_value = to_number num (clean_text (cell_at r jv))\<rparr>)"

definition clean_rows :: "(pystr \<Rightarrow> rat option) \<Rightarrow> nat \<Rightarrow> nat \<Rightarrow> nat \<Rightarrow> cell list list \<Rightarrow> crow list" where
  "clean_rows num jl jc jv rs = List.map_filter (clean_row num jl jc jv) rs"

text \<open>
  The aggregations of \<^verbatim>\<open>groupby\<close> by the code column: the groups come in the sorted order of their
  keys, each group keeps the order of its rows; the label is
  \<^verbatim>\<open>x.dropna().iloc[0] if len(x.dropna()) else pd.NA\<close> and the value is \<^verbatim>\<open>"sum"\<close>, which
  skips missing values and is 0 on a group that has none.
\<close>

definition first_valid :: "'a option list \<Rightarrow> 'a option" where
  "first_valid xs = (case filter (\<lambda>x. x \<noteq> None) xs of [] \<Rightarrow> None | x # _ \<Rightarrow> x)"

fun nz :: "rat option \<Rightarrow> rat" where
  "nz None = 0"
| "nz (Some v) = v"

definition group_keys :: "pystr list \<Rightarrow> pystr list" where
  "group_keys ks = sort (remdups ks)"

definition groupby_agg :: "crow list \<Rightarrow> drow list" where
  "groupby_agg rs =
     map (\<lambda>k. let g = filter (\<lambda>r. c_code r = k) rs
              in \<lparr>d_code = k, d_label = first_valid (map c_label g),
                  d_value = sum_list (map (\<lambda>r. nz (c_value r)) g)\<rparr>)
       (group_keys (map c_code rs))"

text \<open>
  \<^verbatim>\<open>build_doc_df\<close>. Its inputs are what the two extractors read from the file: the page
  texts and the raw tables. The result is an error or the pair the source returns.
\<close>

definition build_doc_df ::
  "(pystr \<Rightarrow> rat option) \<Rightarrow> ucd \<Rightarrow> pystr \<Rightarrow> pystr option list \<Rightarrow> raw_table list \<Rightarrow>
     error + (doc_table option \<times> pystr option)" where
  "build_doc_df num U pdf_path pages tables =
     (case extract_doc_number U pages of
        None \<Rightarrow> Inr (None, None)
      | Some doc_number \<Rightarrow>
          if doc_number = [] then Inr (None, None)
          else
            (case choose_and_clean_table tables of
               None \<Rightarrow> Inr (None, Some doc_number)
             | Some df \<Rightarrow>
                 (let missing = filter (\<lambda>c. Str c \<notin> set (rt_columns df)) required in
                  if missing \<noteq> [] then Inl (ColumnsMissing pdf_path missing (rt_columns df))
                  else
                    (case loc_columns (rt_columns df) required of
                       [jl, jc, jv] \<Rightarrow>
                         Inr (Some \<lparr>doc_col = doc_number,
                                    drows = groupby_agg (clean_rows num jl jc jv (rt_rows df))\<rparr>,
                              Some doc_number)
                     | js \<Rightarrow> Inl (LengthMismatch (length js) 3)))))"

section \<open>Batch reconciler\<close>

text \<open>
  The reconciled table: the names of its value columns, in order, and its rows; a row has
  a label, a code and one cell per value column. The same type holds the result of
  \<^verbatim>\<open>add_totals\<close>, whose last column is the row total and whose last row has no code.
  The value columns are named by the document numbers; the suffixes pandas adds to equal
  column names are not modelled.
\<close>

record frow =
  r_label :: "pystr option"
  r_code :: "pystr option"
  r_vals :: "rat option list"

record frame =
  columns :: "pystr list"
  rows :: "frow list"

text \<open>The running table of the merge loop; its codes are group keys, never missing.\<close>

record mrow =
  m_code :: pystr
  m_label :: "pystr option"
  m_vals :: "rat option list"

definition names_table :: "doc_table list \<Rightarrow> mrow list" where
  "names_table ds =
     (let names = concat (map (\<lambda>d. map (\<lambda>r. (d_code r, d_label r)) (drows d)) ds)
      in map (\<lambda>k. \<lparr>m_code = k,
                    m_label = first_valid (map snd (filter (\<lambda>p. fst p = k) names)),
                    m_vals = []\<rparr>)
           (group_keys (map fst names)))"

text \<open>
  The outer \<^verbatim>\<open>merge\<close> of \<^verbatim>\<open>merged\<close> with the code and value columns of \<^verbatim>\<open>dfi\<close> on the code
  column, where \<open>n\<close> is the number of
  value columns \<open>merged\<close> already has: the keys of both sides in sorted order, and for
  each key \<open>k\<close> the rows \<open>merge_key\<close> gives; a key of both
  sides gives every pairing of its rows, a key of the left side only a missing value in the
  new column, a key of the right side only a row whose other cells are missing.
\<close>

definition merge_key :: "nat \<Rightarrow> mrow list \<Rightarrow> (pystr \<times> rat) list \<Rightarrow> pystr \<Rightarrow> mrow list" where
  "merge_key n left right k =
     (let ls = filter (\<lambda>l. m_code l = k) left;
          rs = filter (\<lambda>p. fst p = k) right
      in if ls = []
         then map (\<lambda>p. \<lparr>m_code = k, m_label = None,
                         m_vals = replicate n None @ [Some (snd p)]\<rparr>) rs
         else if rs = [] then map (\<lambda>l. l\<lparr>m_vals := m_vals l @ [None]\<rparr>) ls
         else concat (map (\<lambda>l. map (\<lambda>p. l\<lparr>m_vals := m_vals l @ [Some (snd p)]\<rparr>) rs) ls))"

definition merge_outer :: "nat \<Rightarrow> mrow list \<Rightarrow> (pystr \<times> rat) list \<Rightarrow> mrow list" where
  "merge_outer n left right =
     concat (map (merge_key n left right) (group_keys (map m_code left @ map fst right)))"

definition code_values :: "doc_table \<Rightarrow> (pystr \<times> rat) list" where
  "code_values d = map (\<lambda>r. (d_code r, d_value r)) (drows d)"

fun merge_all :: "nat \<Rightarrow> mrow list \<Rightarrow> doc_table list \<Rightarrow> mrow list" where
  "merge_all n merged [] = merged"
| "merge_all n merged (dfi # rest) = merge_all (Suc n) (merge_outer n merged (code_values dfi)) rest"

definition reconcile :: "doc_table list \<Rightarrow> frame" where
  "reconcile doc_dfs =
     \<lparr>columns = map doc_col doc_dfs,
      rows = map (\<lambda>m. \<lparr>r_label = m_label m, r_code = Some (m_code m), r_vals = m_vals m\<rparr>)
               (merge_all 0 (names_table doc_dfs) doc_dfs)\<rparr>"

section \<open>Totals calculator\<close>

definition ITOGO_STROKA :: pystr where
  "ITOGO_STROKA =
     [0x418, 0x422, 0x41E, 0x413, 0x41E, 0x5F, 0x421, 0x422, 0x420, 0x41E, 0x41A, 0x410]"

definition ITOGO_STOLBEC :: pystr where
  "ITOGO_STOLBEC =
     [0x418, 0x422, 0x41E, 0x413, 0x41E, 0x5F, 0x421, 0x422, 0x41E, 0x41B, 0x411, 0x415, 0x426]"

text \<open>
  The sort \<^verbatim>\<open>sort_values\<close> by \<^verbatim>\<open>_code_num\<close> and then by the code column, ascending, with
  \<^verbatim>\<open>na_position="last"\<close>, is
  stable and compares the rows by the pair of keys, a missing key after every other.
  \<open>na_last\<close> turns a key into a value of a linear order with that property.
\<close>

definition na_last :: "'a option \<Rightarrow> bool \<times> 'a option" where
  "na_last x = (x = None, x)"

definition code_num :: "(pystr \<Rightarrow> 'n option) \<Rightarrow> pystr option \<Rightarrow> 'n option" where
  "code_num num c = (case c of None \<Rightarrow> None | Some s \<Rightarrow> num s)"

definition code_key ::
  "(pystr \<Rightarrow> 'n option) \<Rightarrow> pystr option \<Rightarrow> (bool \<times> 'n option) \<times> (bool \<times> pystr option)" where
  "code_key num c = (na_last (code_num num c), na_last c)"

definition sort_by_code :: "(pystr \<Rightarrow> 'n::linorder option) \<Rightarrow> frow list \<Rightarrow> frow list" where
  "sort_by_code num rs = sort_key (\<lambda>r. code_key num (r_code r)) rs"

definition cell :: "frow \<Rightarrow> nat \<Rightarrow> rat option" where
  "cell r j = (if j < length (r_vals r) then r_vals r ! j else None)"

text \<open>
  \<^verbatim>\<open>num.sum(axis=1, skipna=True)\<close> assigned to the new column. With no value column at all,
  \<^verbatim>\<open>num\<close> is a frame without rows, the sum is an empty series and the assignment fills
  the column with missing values.
\<close>

definition row_total :: "nat \<Rightarrow> frow \<Rightarrow> rat option" where
  "row_total n r = (if n = 0 then None else Some (sum_list (map (\<lambda>j. nz (cell r j)) [0..<n])))"

definition with_total :: "nat \<Rightarrow> frow \<Rightarrow> frow" where
  "with_total n r = r\<lparr>r_vals := map (cell r) [0..<n] @ [row_total n r]\<rparr>"

definition totals_row :: "nat \<Rightarrow> frow list \<Rightarrow> frow" where
  "totals_row n df =
     \<lparr>r_label = Some ITOGO_STOLBEC, r_code = None,
      r_vals = map (\<lambda>j. Some (sum_list (map (\<lambda>r. nz (cell r j)) df))) [0..<n] @
               [Some (sum_list (map (\<lambda>r. nz (cell r n)) df))]\<rparr>"

definition add_totals :: "(pystr \<Rightarrow> 'n::linorder option) \<Rightarrow> frame \<Rightarrow> frame" where
  "add_totals num final_df =
     (if rows final_df = [] then final_df
      else
        (let n = length (columns final_df);
             df = map (with_total n) (sort_by_code num (rows final_df))
         in \<lparr>columns = columns final_df @ [ITOGO_STROKA], rows = df @ [totals_row n df]\<rparr>))"

section \<open>The batch\<close>

record document =
  doc_path :: pystr
  doc_pages :: "pystr option list"
  doc_tables :: "raw_table list"

text \<open>
  The loop over the files: a document without a number or without a table is skipped, an
  exception ends the run. Writing the log is not modelled.
\<close>

fun collect_doc_dfs :: "(pystr \<Rightarrow> rat option) \<Rightarrow> ucd \<Rightarrow> document list \<Rightarrow> error + doc_table list" where
  "collect_doc_dfs num U [] = Inr []"
| "collect_doc_dfs num U (doc # rest) =
     (case build_doc_df num U (doc_path doc) (doc_pages doc) (doc_tables doc) of
        Inl e \<Rightarrow> Inl e
      | Inr (dfi, docno) \<Rightarrow>
          (case collect_doc_dfs num U rest of
             Inl e \<Rightarrow> Inl e
           | Inr doc_dfs \<Rightarrow>
               Inr (case docno of
                      None \<Rightarrow> doc_dfs
                    | Some _ \<Rightarrow> (case dfi of None \<Rightarrow> doc_dfs | Some t \<Rightarrow> t # doc_dfs))))"

definition process_pdfs :: "(pystr \<Rightarrow> rat option) \<Rightarrow> ucd \<Rightarrow> document list \<Rightarrow> error + frame" where
  "process_pdfs num U docs =
     (case collect_doc_dfs num U docs of
        Inl e \<Rightarrow> Inl e
      | Inr doc_dfs \<Rightarrow>
          if doc_dfs = [] then Inr (add_totals num \<lparr>columns = [], rows = []\<rparr>)
          else Inr (add_totals num (reconcile doc_dfs)))"

section \<open>The totals calculator on an object store\<close>

text \<open>
  \<^verbatim>\<open>add_totals\<close> receives a reference to a frame and returns one. To say which frames it
  changes and whether the result is a new object, the store is made explicit: a heap is the
  list of the frames allocated so far and a reference is an index into it.
  \<^verbatim>\<open>final_df.copy()\<close>, the chain \<^verbatim>\<open>assign\<close>, \<^verbatim>\<open>sort_values\<close>, \<^verbatim>\<open>drop\<close> and \<^verbatim>\<open>pd.concat\<close>
  allocate a new frame; \<^verbatim>\<open>df["\<dots>"] = \<dots>\<close> updates the frame \<^verbatim>\<open>df\<close> refers to in place. On
  an empty frame the function returns its argument.
\<close>

type_synonym heap = "frame list"

definition alloc :: "heap \<Rightarrow> frame \<Rightarrow> heap \<times> nat" where
  "alloc h f = (h @ [f], length h)"

definition add_totals_heap :: "(pystr \<Rightarrow> 'n::linorder option) \<Rightarrow> heap \<Rightarrow> nat \<Rightarrow> heap \<times> nat" where
  "add_totals_heap num h final_df =
     (if rows (h ! final_df) = [] then (h, final_df)
      else
        (let (h1, df) = alloc h (h ! final_df);
             (h2, df) = alloc h1 ((h1 ! df)\<lparr>rows := sort_by_code num (rows (h1 ! df))\<rparr>);
             n = length (columns (h2 ! df));
             h3 = h2[df := \<lparr>columns = columns (h2 ! df) @ [ITOGO_STROKA],
                            rows = map (with_total n) (rows (h2 ! df))\<rparr>];
             (h4, out) = alloc h3 ((h3 ! df)\<lparr>rows := rows (h3 ! df) @ [totals_row n (rows (h3 ! df))]\<rparr>)
         in (h4, out)))"

text \<open>What a row holds under the first \<open>n\<close> value columns: its label, its code and its cells.\<close>

definition row_data :: "nat \<Rightarrow> frow \<Rightarrow> pystr option \<times> pystr option \<times> rat option list" where
  "row_data n r = (r_label r, r_code r, map (cell r) [0..<n])"

section \<open>Concrete inputs\<close>

definition ex_codes :: frame where
  "ex_codes = \<lparr>columns = [u ''100''],
     rows = [\<lparr>r_label = None, r_code = Some (u ''10''), r_vals = [Some 1]\<rparr>,
             \<lparr>r_label = None, r_code = Some (u ''2''), r_vals = [None]\<rparr>,
             \<lparr>r_label = None, r_code = Some (u ''abc''), r_vals = [Some 3]\<rparr>]\<rparr>"

definition doc_no_number :: document where
  "doc_no_number = \<lparr>doc_path = u ''a.pdf'', doc_pages = [Some (u ''no number'')], doc_tables = [grid_table 8 3]\<rparr>"

definition doc_no_table :: document where
  "doc_no_table = \<lparr>doc_path = u ''b.pdf'', doc_pages = [Some (u ''id 77 01.02.2020'')], doc_tables = [grid_table 3 3]\<rparr>"

text \<open>
  A raw table in first position that the selector accepts: three rows above the header row,
  two rows below the data rows.
\<close>

definition framed_table :: "cell list \<Rightarrow> cell list list \<Rightarrow> raw_table" where
  "framed_table hdr body =
     \<lparr>rt_columns = replicate (length hdr) NA,
      rt_rows = replicate 3 (replicate (length hdr) NA) @ [hdr] @ body @
                replicate 2 (replicate (length hdr) NA)\<rparr>"


definition doc_bad_header :: document where
  "doc_bad_header =
     \<lparr>doc_path = u ''d.pdf'', doc_pages = [Some (u ''id 77 01.02.2020'')],
      doc_tables =
        [framed_table [Str (u ''2''), Num (u ''3''), Str (u ''9'')]
           [[Str (u ''a''), Str (u ''5''), Str (u ''1'')]]]\<rparr>"




section \<open>Properties of the field normalisers\<close>

lemma empty_to_na_not_empty: "empty_to_na s \<noteq> Some []"
  by (simp add: empty_to_na_def)

text \<open>
  Claim C8. The three normalisers return a value or the missing marker on every cell, never
  an empty string; numeric normalisation maps "1 234,56" to 1234.56, "1234" to 1234, and
  "" and "N/A" to missing; code normalisation maps "123.0" to "123" and "  45  " to "45",
  and an empty result to missing.
\<close>

theorem field_normalizers_examples:
  "to_number to_numeric (Some (u ''1 234,56'')) = Some (123456 / 100) \<and>
   to_number to_numeric (clean_text (Str (u ''1 234,56''))) = Some (123456 / 100) \<and>
   to_number to_numeric (Some (u ''1234'')) = Some 1234 \<and>
   to_number to_numeric (Some (u '''')) = None \<and>
   to_number to_numeric (Some (u ''N/A'')) = None \<and>
   to_number to_numeric None = None \<and>
   clean_code (Str (u ''123.0'')) = Some (u ''123'') \<and>
   clean_code (Num (u ''123.0'')) = Some (u ''123'') \<and>
   clean_code (Str (u ''  45  '')) = Some (u ''45'') \<and>
   clean_code (Str (u '''')) = None \<and>
   clean_code (Str (u ''.0'')) = None \<and>
   clean_code NA = None \<and>
   clean_text (Str (u '' a   b '')) = Some (u ''a b'') \<and>
   clean_text (Str (u ''   '')) = None \<and>
   clean_text NA = None \<and>
   clean_code c \<noteq> Some [] \<and>
   clean_text c \<noteq> Some []"
  by (simp add: to_number_def to_numeric_def clean_text_def clean_code_def u_def
      empty_to_na_def str_strip_def sub_dot0_end_def is_space_def ascii_digit_def
      digits_val_def)

theorem field_normalizers_examples_witness:
  "to_number to_numeric (Some (u ''1 234,56'')) = Some (123456 / 100) \<and>
   to_number to_numeric (Some (u ''N/A'')) = None \<and>
   clean_code (Str (u ''123.0'')) = Some (u ''123'') \<and>
   clean_code (Num (u ''.0'')) \<noteq> Some [] \<and>
   clean_text (Str (u ''   '')) \<noteq> Some []"
  using field_normalizers_examples [of "Num (u ''.0'')"]
    field_normalizers_examples [of "Str (u ''   '')"]
  by blast

section \<open>Properties of the table selector\<close>

lemma slice_bound_minus2: "slice_bound (- 2) n = n - 2"
  by (simp add: slice_bound_def nat_diff_distrib)

lemma slice_bound_nonneg: "slice_bound (int k) n = min k n"
  by (simp add: slice_bound_def)

lemma iloc_slice_minus2: "iloc_slice (int k) (- 2) xs = drop k (take (length xs - 2) xs)"
  unfolding iloc_slice_def Let_def slice_bound_minus2 slice_bound_nonneg
  by (cases "k \<le> length xs") (simp_all add: min_def)

lemma iloc_slice_trim: "iloc_slice a b xs = trim_rows i xs" if "slice_rules_get i = (a, b)"
proof -
  have "a = (if i = 2 then int 1 else int 3) \<and> b = - 2"
    using that
    by (auto simp: slice_rules_get_def slice_rules_def default_slice_def split: if_splits)
  then show ?thesis
    using iloc_slice_minus2 [of 1 xs] iloc_slice_minus2 [of 3 xs]
    by (simp add: trim_rows_def)
qed

lemma choose_from_step:
  "choose_from i (t # rest) =
     (if survives i t then Some (headed (trim_rows i (rt_rows t))) else choose_from (Suc i) rest)"
proof -
  obtain a b where ab: "slice_rules_get i = (a, b)"
    by (cases "slice_rules_get i")
  show ?thesis
    using iloc_slice_trim [OF ab, of "rt_rows t"]
    by (auto simp: ab survives_def eligible_def headed_def df_empty_def Let_def)
qed

declare choose_from.simps(2) [simp del]

lemma choose_from_Some_iff:
  "choose_from k ts = Some df \<longleftrightarrow>
     (\<exists>i<length ts. survives (k + i) (ts ! i) \<and> df = headed (trim_rows (k + i) (rt_rows (ts ! i))) \<and>
        (\<forall>j<i. \<not> survives (k + j) (ts ! j)))"
proof (induction ts arbitrary: k)
  case Nil
  show ?case by simp
next
  case (Cons t ts)
  show ?case
  proof (cases "survives k t")
    case True
    have "(\<exists>i<length (t # ts). survives (k + i) ((t # ts) ! i) \<and>
            df = headed (trim_rows (k + i) (rt_rows ((t # ts) ! i))) \<and>
            (\<forall>j<i. \<not> survives (k + j) ((t # ts) ! j))) \<longleftrightarrow>
          df = headed (trim_rows k (rt_rows t))"
    proof
      assume "\<exists>i<length (t # ts). survives (k + i) ((t # ts) ! i) \<and>
            df = headed (trim_rows (k + i) (rt_rows ((t # ts) ! i))) \<and>
            (\<forall>j<i. \<not> survives (k + j) ((t # ts) ! j))"
      then obtain i where i: "survives (k + i) ((t # ts) ! i)"
        "df = headed (trim_rows (k + i) (rt_rows ((t # ts) ! i)))"
        "\<forall>j<i. \<not> survives (k + j) ((t # ts) ! j)"
        by blast
      have "i = 0"
      proof (rule ccontr)
        assume "i \<noteq> 0"
        then have "\<not> survives (k + 0) ((t # ts) ! 0)" using i(3) by blast
        then show False using True by simp
      qed
      then show "df = headed (trim_rows k (rt_rows t))" using i(2) by simp
    next
      assume "df = headed (trim_rows k (rt_rows t))"
      then have "0 < length (t # ts) \<and> survives (k + 0) ((t # ts) ! 0) \<and>
            df = headed (trim_rows (k + 0) (rt_rows ((t # ts) ! 0))) \<and>
            (\<forall>j<0. \<not> survives (k + j) ((t # ts) ! j))"
        using True by simp
      then show "\<exists>i<length (t # ts). survives (k + i) ((t # ts) ! i) \<and>
            df = headed (trim_rows (k + i) (rt_rows ((t # ts) ! i))) \<and>
            (\<forall>j<i. \<not> survives (k + j) ((t # ts) ! j))"
        by blast
    qed
    then show ?thesis
      using True by (auto simp: choose_from_step)
  next
    case False
    have "(\<exists>i<length (t # ts). survives (k + i) ((t # ts) ! i) \<and>
            df = headed (trim_rows (k + i) (rt_rows ((t # ts) ! i))) \<and>
            (\<forall>j<i. \<not> survives (k + j) ((t # ts) ! j))) \<longleftrightarrow>
          (\<exists>i<length ts. survives (Suc k + i) (ts ! i) \<and>
            df = headed (trim_rows (Suc k + i) (rt_rows (ts ! i))) \<and>
            (\<forall>j<i. \<not> survives (Suc k + j) (ts ! j)))" (is "?L \<longleftrightarrow> ?R")
    proof
      assume ?L
      then obtain i where i: "i < length (t # ts)" "survives (k + i) ((t # ts) ! i)"
        "df = headed (trim_rows (k + i) (rt_rows ((t # ts) ! i)))"
        "\<forall>j<i. \<not> survives (k + j) ((t # ts) ! j)"
        by blast
      from i(2) False obtain i' where i': "i = Suc i'"
        by (cases i) auto
      have "\<forall>j<i'. \<not> survives (Suc k + j) (ts ! j)"
      proof (intro allI impI)
        fix j assume "j < i'"
        then have "Suc j < i" using i' by simp
        then have "\<not> survives (k + Suc j) ((t # ts) ! Suc j)" using i(4) by blast
        then show "\<not> survives (Suc k + j) (ts ! j)" by simp
      qed
      then show ?R using i(1,2,3) i' by (intro exI [of _ i']) simp
    next
      assume ?R
      then obtain i where i: "i < length ts" "survives (Suc k + i) (ts ! i)"
        "df = headed (trim_rows (Suc k + i) (rt_rows (ts ! i)))"
        "\<forall>j<i. \<not> survives (Suc k + j) (ts ! j)"
        by blast
      have "\<forall>j<Suc i. \<not> survives (k + j) ((t # ts) ! j)"
      proof (intro allI impI)
        fix j assume j: "j < Suc i"
        show "\<not> survives (k + j) ((t # ts) ! j)"
        proof (cases j)
          case 0
          then show ?thesis using False by simp
        next
          case (Suc j')
          then have "j' < i" using j by simp
          then show ?thesis using i(4) Suc by simp
        qed
      qed
      then show ?L using i(1,2,3) by (intro exI [of _ "Suc i"]) simp
    qed
    then show ?thesis
      using False Cons.IH [of "Suc k"] by (simp add: choose_from_step)
  qed
qed

text \<open>
  Claim C4. The selector goes through the raw tables in their original order and returns
  the first one that has more than 5 rows and more than 2 columns and keeps at least 2 rows
  under the trim for its index in the original list: rows \<open>[1, end - 2)\<close> at index 2, rows
  \<open>[3, end - 2)\<close> at index 0 and at every other index. A table of 3 rows in first position
  is rejected.
\<close>

theorem table_selector_positional_trim:
  "(choose_and_clean_table tables = Some df \<longleftrightarrow>
      (\<exists>i<length tables.
         5 < length (rt_rows (tables ! i)) \<and> 2 < length (rt_columns (tables ! i)) \<and>
         2 \<le> length (trim_rows i (rt_rows (tables ! i))) \<and>
         df = headed (trim_rows i (rt_rows (tables ! i))) \<and>
         (\<forall>j<i. length (rt_rows (tables ! j)) \<le> 5 \<or> length (rt_columns (tables ! j)) \<le> 2 \<or>
                length (trim_rows j (rt_rows (tables ! j))) < 2))) \<and>
   trim_rows 0 xs = drop 3 (take (length xs - 2) xs) \<and>
   trim_rows 2 xs = drop 1 (take (length xs - 2) xs) \<and>
   (i \<noteq> 2 \<longrightarrow> trim_rows i xs = drop 3 (take (length xs - 2) xs)) \<and>
   (length (rt_rows t) = 3 \<longrightarrow>
      choose_and_clean_table (t # rest) = choose_from 1 rest \<and>
      choose_and_clean_table [t] = None)"
proof -
  have eq: "choose_and_clean_table ts = choose_from 0 ts" for ts
    by (cases ts) (simp_all add: choose_and_clean_table_def)
  have surv: "survives i t \<longleftrightarrow> 5 < length (rt_rows t) \<and> 2 < length (rt_columns t) \<and>
         2 \<le> length (trim_rows i (rt_rows t))" for i t
    by (simp add: survives_def eligible_def)
  have main: "choose_and_clean_table tables = Some df \<longleftrightarrow>
      (\<exists>i<length tables.
         5 < length (rt_rows (tables ! i)) \<and> 2 < length (rt_columns (tables ! i)) \<and>
         2 \<le> length (trim_rows i (rt_rows (tables ! i))) \<and>
         df = headed (trim_rows i (rt_rows (tables ! i))) \<and>
         (\<forall>j<i. length (rt_rows (tables ! j)) \<le> 5 \<or> length (rt_columns (tables ! j)) \<le> 2 \<or>
                length (trim_rows j (rt_rows (tables ! j))) < 2))"
    unfolding eq choose_from_Some_iff [of 0 tables df] add_0 surv
    by (simp only: conj_assoc de_Morgan_conj not_less not_le)
  have three: "length (rt_rows t) = 3 \<longrightarrow>
      choose_and_clean_table (t # rest) = choose_from 1 rest \<and>
      choose_and_clean_table [t] = None"
    unfolding eq by (simp add: choose_from_step survives_def eligible_def)
  have trims: "trim_rows 0 xs = drop 3 (take (length xs - 2) xs)"
    "trim_rows 2 xs = drop 1 (take (length xs - 2) xs)"
    "i \<noteq> 2 \<longrightarrow> trim_rows i xs = drop 3 (take (length xs - 2) xs)"
    by (simp_all add: trim_rows_def)
  from main trims three show ?thesis
    by blast
qed

lemma grid_table_rows: "length (rt_rows (grid_table r c)) = r"
  and grid_table_columns: "length (rt_columns (grid_table r c)) = c"
  by (simp_all add: grid_table_def)

lemma upt_numerals:
  "[0..<3] = [0, 1, 2]" "[0..<6] = [0, 1, 2, 3, 4, 5]" "[0..<7] = [0, 1, 2, 3, 4, 5, 6]"
  "[0..<8] = [0, 1, 2, 3, 4, 5, 6, 7]"
  by (simp_all add: upt_rec)

theorem table_selector_positional_trim_witness:
  "choose_and_clean_table [grid_table 3 3, grid_table 6 3, grid_table 8 3] =
     Some \<lparr>rt_columns = [Str (u ''10''), Str (u ''11''), Str (u ''12'')],
           rt_rows = [[Str (u ''20''), Str (u ''21''), Str (u ''22'')],
                      [Str (u ''30''), Str (u ''31''), Str (u ''32'')],
                      [Str (u ''40''), Str (u ''41''), Str (u ''42'')],
                      [Str (u ''50''), Str (u ''51''), Str (u ''52'')]]\<rparr> \<and>
   length (rt_rows (grid_table 3 3)) = 3 \<and>
   choose_and_clean_table [grid_table 3 3] = None"
proof -
  let ?ts = "[grid_table 3 3, grid_table 6 3, grid_table 8 3]"
  let ?df = "headed (trim_rows 2 (rt_rows (grid_table 8 3)))"
  have len: "length (rt_rows (grid_table 3 3)) = 3"
    by (simp add: grid_table_rows)
  have "\<exists>i<length ?ts.
         5 < length (rt_rows (?ts ! i)) \<and> 2 < length (rt_columns (?ts ! i)) \<and>
         2 \<le> length (trim_rows i (rt_rows (?ts ! i))) \<and>
         ?df = headed (trim_rows i (rt_rows (?ts ! i))) \<and>
         (\<forall>j<i. length (rt_rows (?ts ! j)) \<le> 5 \<or> length (rt_columns (?ts ! j)) \<le> 2 \<or>
                length (trim_rows j (rt_rows (?ts ! j))) < 2)"
    by (rule exI [of _ 2])
      (simp add: grid_table_rows grid_table_columns trim_rows_def less_Suc_eq numeral_2_eq_2)
  then have "choose_and_clean_table ?ts = Some ?df"
    using table_selector_positional_trim [of ?ts ?df] by blast
  moreover have "?df = \<lparr>rt_columns = [Str (u ''10''), Str (u ''11''), Str (u ''12'')],
           rt_rows = [[Str (u ''20''), Str (u ''21''), Str (u ''22'')],
                      [Str (u ''30''), Str (u ''31''), Str (u ''32'')],
                      [Str (u ''40''), Str (u ''41''), Str (u ''42'')],
                      [Str (u ''50''), Str (u ''51''), Str (u ''52'')]]\<rparr>"
    by (simp add: headed_def trim_rows_def grid_table_def upt_numerals u_def)
  moreover have "choose_and_clean_table [grid_table 3 3] = None"
    using table_selector_positional_trim [of "[]" undefined "[]" 0 "grid_table 3 3" "[]"] len
    by blast
  ultimately show ?thesis
    using len by simp
qed

text \<open>
  Claim C5, as stated: a table is accepted only if at least 2 data rows remain once the
  header row has been removed, so a trimmed table of exactly 2 rows is rejected. The source
  tests \<^verbatim>\<open>len(df) < 2\<close> before it takes the header: a table of 7 rows in first position
  is trimmed to 2 rows and accepted with a single data row.
\<close>

theorem table_selector_two_data_rows_counterexample:
  "choose_and_clean_table [grid_table 7 3] =
     Some \<lparr>rt_columns = [Str (u ''30''), Str (u ''31''), Str (u ''32'')],
           rt_rows = [[Str (u ''40''), Str (u ''41''), Str (u ''42'')]]\<rparr> \<and>
   length (trim_rows 0 (rt_rows (grid_table 7 3))) = 2 \<and>
   \<not> (\<forall>df. choose_and_clean_table [grid_table 7 3] = Some df \<longrightarrow> 2 \<le> length (rt_rows df))"
proof -
  have "choose_and_clean_table [grid_table 7 3] =
     Some \<lparr>rt_columns = [Str (u ''30''), Str (u ''31''), Str (u ''32'')],
           rt_rows = [[Str (u ''40''), Str (u ''41''), Str (u ''42'')]]\<rparr>"
    by (simp add: choose_and_clean_table_def choose_from_step survives_def eligible_def
        headed_def trim_rows_def grid_table_def upt_numerals u_def)
  moreover have "length (trim_rows 0 (rt_rows (grid_table 7 3))) = 2"
    by (simp add: trim_rows_def grid_table_rows)
  ultimately show ?thesis
    by simp
qed

text \<open>
  Claim C5, amended. After the positional trim the first remaining row becomes the header
  and is removed from the data. A table is accepted when its trim holds at least 2 rows,
  header included, so every accepted table keeps at least 1 data row; an eligible table
  whose trim holds fewer than 2 rows is rejected and the loop goes on with the next raw
  table.
\<close>

theorem table_selector_header_and_fallback:
  "(choose_and_clean_table tables = Some df \<longrightarrow>
      1 \<le> length (rt_rows df) \<and>
      (\<exists>i<length tables. eligible (tables ! i) \<and>
         2 \<le> length (trim_rows i (rt_rows (tables ! i))) \<and>
         rt_columns df = hd (trim_rows i (rt_rows (tables ! i))) \<and>
         rt_rows df = tl (trim_rows i (rt_rows (tables ! i))))) \<and>
   (eligible t \<and> length (trim_rows i (rt_rows t)) < 2 \<longrightarrow>
      choose_from i (t # rest) = choose_from (Suc i) rest) \<and>
   (eligible t \<and> 2 \<le> length (trim_rows i (rt_rows t)) \<longrightarrow>
      choose_from i (t # rest) =
        Some \<lparr>rt_columns = hd (trim_rows i (rt_rows t)), rt_rows = tl (trim_rows i (rt_rows t))\<rparr>)"
proof -
  have eq: "choose_and_clean_table tables = choose_from 0 tables"
    by (cases tables) (simp_all add: choose_and_clean_table_def)
  have "1 \<le> length (rt_rows df) \<and>
      (\<exists>i<length tables. eligible (tables ! i) \<and>
         2 \<le> length (trim_rows i (rt_rows (tables ! i))) \<and>
         rt_columns df = hd (trim_rows i (rt_rows (tables ! i))) \<and>
         rt_rows df = tl (trim_rows i (rt_rows (tables ! i))))"
    if "choose_and_clean_table tables = Some df"
  proof -
    from that obtain i where i: "i < length tables" "survives i (tables ! i)"
      "df = headed (trim_rows i (rt_rows (tables ! i)))"
      unfolding eq choose_from_Some_iff [of 0 tables df] by auto
    from i(2) have two: "2 \<le> length (trim_rows i (rt_rows (tables ! i)))"
      and el: "eligible (tables ! i)"
      by (simp_all add: survives_def)
    from two i(3) have "1 \<le> length (rt_rows df)"
      by (simp add: headed_def)
    with i el two show ?thesis
      by (auto simp: headed_def)
  qed
  then show ?thesis
    by (auto simp: choose_from_step survives_def headed_def)
qed

theorem table_selector_header_and_fallback_witness:
  "eligible (grid_table 6 3) \<and> length (trim_rows 0 (rt_rows (grid_table 6 3))) < 2 \<and>
   choose_from 0 [grid_table 6 3, grid_table 7 3] = choose_from 1 [grid_table 7 3] \<and>
   eligible (grid_table 7 3) \<and> 2 \<le> length (trim_rows 1 (rt_rows (grid_table 7 3))) \<and>
   choose_from 1 [grid_table 7 3] =
     Some \<lparr>rt_columns = [Str (u ''30''), Str (u ''31''), Str (u ''32'')],
           rt_rows = [[Str (u ''40''), Str (u ''41''), Str (u ''42'')]]\<rparr> \<and>
   choose_and_clean_table [grid_table 6 3, grid_table 7 3] =
     Some \<lparr>rt_columns = [Str (u ''30''), Str (u ''31''), Str (u ''32'')],
           rt_rows = [[Str (u ''40''), Str (u ''41''), Str (u ''42'')]]\<rparr> \<and>
   1 \<le> length (rt_rows \<lparr>rt_columns = [Str (u ''30''), Str (u ''31''), Str (u ''32'')],
           rt_rows = [[Str (u ''40''), Str (u ''41''), Str (u ''42'')]]\<rparr>)"
proof -
  have e6: "eligible (grid_table 6 3) \<and> length (trim_rows 0 (rt_rows (grid_table 6 3))) < 2"
    by (simp add: eligible_def grid_table_rows grid_table_columns trim_rows_def)
  have e7: "eligible (grid_table 7 3) \<and> 2 \<le> length (trim_rows 1 (rt_rows (grid_table 7 3)))"
    by (simp add: eligible_def grid_table_rows grid_table_columns trim_rows_def)
  have s6: "choose_from 0 [grid_table 6 3, grid_table 7 3] = choose_from 1 [grid_table 7 3]"
    using table_selector_header_and_fallback [of "[]" undefined "grid_table 6 3" 0 "[grid_table 7 3]"] e6
    by simp
  have s7: "choose_from 1 [grid_table 7 3] =
     Some \<lparr>rt_columns = hd (trim_rows 1 (rt_rows (grid_table 7 3))),
           rt_rows = tl (trim_rows 1 (rt_rows (grid_table 7 3)))\<rparr>"
    using table_selector_header_and_fallback [of "[]" undefined "grid_table 7 3" 1 "[]"] e7
    by simp
  have v7: "\<lparr>rt_columns = hd (trim_rows 1 (rt_rows (grid_table 7 3))),
           rt_rows = tl (trim_rows 1 (rt_rows (grid_table 7 3)))\<rparr> =
         \<lparr>rt_columns = [Str (u ''30''), Str (u ''31''), Str (u ''32'')],
           rt_rows = [[Str (u ''40''), Str (u ''41''), Str (u ''42'')]]\<rparr>"
    by (simp add: trim_rows_def grid_table_def upt_numerals u_def)
  have all: "choose_and_clean_table [grid_table 6 3, grid_table 7 3] =
     Some \<lparr>rt_columns = [Str (u ''30''), Str (u ''31''), Str (u ''32'')],
           rt_rows = [[Str (u ''40''), Str (u ''41''), Str (u ''42'')]]\<rparr>"
    using s6 s7 v7 by (simp add: choose_and_clean_table_def)
  from e6 e7 s6 s7 v7 all show ?thesis
    by simp
qed

section \<open>Properties of the identifier extractor\<close>

lemma first_some_Some: "first_some f xs = Some y \<Longrightarrow> \<exists>x\<in>set xs. f x = Some y"
  by (induction xs) (auto split: option.splits)

lemma first_some_None_iff: "first_some f xs = None \<longleftrightarrow> (\<forall>x\<in>set xs. f x = None)"
  by (induction xs) (auto split: option.splits)

lemma takeWhile_length_ge: "n \<le> length (takeWhile P s) \<longleftrightarrow> n \<le> length s \<and> list_all P (take n s)"
proof (induction s arbitrary: n)
  case Nil
  show ?case by simp
next
  case (Cons c s)
  show ?case
    by (cases n) (auto simp: Cons.IH)
qed

lemma counts_iff:
  "n \<in> set (counts U it s) \<longleftrightarrow> n \<le> length s \<and> fits_item U it (take n s)"
proof -
  have "n \<in> set (counts U it s) \<longleftrightarrow>
      lo it \<le> n \<and> n \<le> length (takeWhile (in_class U (cls it)) s) \<and>
      (case hi it of None \<Rightarrow> True | Some h \<Rightarrow> n \<le> h)"
    by (auto simp: counts_def Let_def split: option.splits)
  then show ?thesis
    by (auto simp: takeWhile_length_ge fits_item_def min_def split: option.splits)
qed

lemma match_here_sound:
  "match_here U its s = Some g \<Longrightarrow>
     \<exists>ws rest. s = concat ws @ rest \<and> list_all2 (fits_item U) its ws \<and> g = cap its ws"
proof (induction its arbitrary: s g)
  case Nil
  then show ?case by simp
next
  case (Cons it its)
  from Cons.prems obtain n where n: "n \<in> set (counts U it s)"
    and m: "(case match_here U its (drop n s) of None \<Rightarrow> None
             | Some g' \<Rightarrow> Some (if grp it then Some (take n s) else g')) = Some g"
    by (auto dest: first_some_Some)
  from m obtain g' where g': "match_here U its (drop n s) = Some g'"
    and g: "g = (if grp it then Some (take n s) else g')"
    by (auto split: option.splits)
  from Cons.IH [OF g'] obtain ws rest where ws: "drop n s = concat ws @ rest"
    "list_all2 (fits_item U) its ws" "g' = cap its ws"
    by blast
  from n have fit: "fits_item U it (take n s)"
    by (simp add: counts_iff)
  have "s = concat (take n s # ws) @ rest"
    using ws(1) append_take_drop_id [of n s] by simp
  moreover have "list_all2 (fits_item U) (it # its) (take n s # ws)"
    using fit ws(2) by simp
  moreover have "g = cap (it # its) (take n s # ws)"
    using g ws(3) by simp
  ultimately show ?case by blast
qed

lemma match_here_complete:
  "list_all2 (fits_item U) its ws \<Longrightarrow> match_here U its (concat ws @ rest) \<noteq> None"
proof (induction its arbitrary: ws)
  case Nil
  then show ?case by simp
next
  case (Cons it its)
  from Cons.prems obtain w ws' where ws: "ws = w # ws'" "fits_item U it w"
    "list_all2 (fits_item U) its ws'"
    by (auto simp: list_all2_Cons1)
  let ?s = "concat ws @ rest"
  have "length w \<in> set (counts U it ?s)"
    using ws(1,2) by (simp add: counts_iff)
  moreover have "match_here U its (drop (length w) ?s) \<noteq> None"
    using Cons.IH [OF ws(3)] ws(1) by simp
  ultimately have "\<exists>n\<in>set (counts U it ?s).
      (case match_here U its (drop n ?s) of None \<Rightarrow> None
       | Some g' \<Rightarrow> Some (if grp it then Some (take n ?s) else g')) \<noteq> None"
    by (intro bexI [of _ "length w"]) (auto split: option.splits)
  then show ?case
    by (simp add: first_some_None_iff)
qed

lemma re_search_sound: "re_search U p t = Some g \<Longrightarrow> re_matches U p t g"
proof -
  assume "re_search U p t = Some g"
  then obtain i where "match_here U p (drop i t) = Some g"
    unfolding re_search_def by (auto dest: first_some_Some)
  from match_here_sound [OF this] obtain ws rest where
    "drop i t = concat ws @ rest" "list_all2 (fits_item U) p ws" "g = cap p ws"
    by blast
  then have "t = take i t @ concat ws @ rest \<and> list_all2 (fits_item U) p ws \<and> g = cap p ws"
    using append_take_drop_id [of i t] by simp
  then show ?thesis
    unfolding re_matches_def by blast
qed

lemma re_search_complete: "re_matches U p t g \<Longrightarrow> re_search U p t \<noteq> None"
proof -
  assume "re_matches U p t g"
  then obtain pre ws rest where t: "t = pre @ concat ws @ rest"
    and fits: "list_all2 (fits_item U) p ws"
    unfolding re_matches_def by blast
  have "match_here U p (drop (length pre) t) \<noteq> None"
    using match_here_complete [OF fits, of rest] t by simp
  moreover have "length pre \<le> length t"
    unfolding t by simp
  then have "length pre \<in> set [0..<Suc (length t)]"
    by auto
  ultimately show ?thesis
    unfolding re_search_def first_some_None_iff by metis
qed


lemma re_search_None_iff: "re_search U p t = None \<longleftrightarrow> (\<forall>g. \<not> re_matches U p t g)"
  using re_search_sound re_search_complete by (metis option.exhaust)

lemma fits_lit_ci:
  "list_all2 (fits_item U) (lit_ci w) ws \<longleftrightarrow>
     (\<exists>l. ws = map (\<lambda>c. [c]) l \<and> list_all2 (uc_caseless U) w l)"
proof (induction w arbitrary: ws)
  case Nil
  show ?case by (auto simp: lit_ci_def)
next
  case (Cons p w)
  have one: "fits_item U (Item (LitI p) 1 (Some 1) True False) x \<longleftrightarrow>
      (\<exists>c. x = [c] \<and> uc_caseless U p c)" for x
    by (cases x) (auto simp: fits_item_def)
  show ?case
  proof
    assume "list_all2 (fits_item U) (lit_ci (p # w)) ws"
    then obtain x xs where ws: "ws = x # xs"
      and x: "fits_item U (Item (LitI p) 1 (Some 1) True False) x"
      and xs: "list_all2 (fits_item U) (lit_ci w) xs"
      by (auto simp: lit_ci_def list_all2_Cons1)
    from x obtain c where c: "x = [c]" "uc_caseless U p c"
      using one by blast
    from xs obtain l where l: "xs = map (\<lambda>c. [c]) l" "list_all2 (uc_caseless U) w l"
      using Cons.IH by blast
    have "ws = map (\<lambda>c. [c]) (c # l) \<and> list_all2 (uc_caseless U) (p # w) (c # l)"
      using ws c l by simp
    then show "\<exists>l. ws = map (\<lambda>c. [c]) l \<and> list_all2 (uc_caseless U) (p # w) l"
      by blast
  next
    assume "\<exists>l. ws = map (\<lambda>c. [c]) l \<and> list_all2 (uc_caseless U) (p # w) l"
    then obtain l where l: "ws = map (\<lambda>c. [c]) l" "list_all2 (uc_caseless U) (p # w) l"
      by blast
    from l(2) obtain c l' where l': "l = c # l'" "uc_caseless U p c"
      "list_all2 (uc_caseless U) w l'"
      by (auto simp: list_all2_Cons1)
    have "list_all2 (fits_item U) (lit_ci w) (map (\<lambda>c. [c]) l')"
      using Cons.IH l'(3) by blast
    moreover have "fits_item U (Item (LitI p) 1 (Some 1) True False) [c]"
      using one l'(2) by blast
    ultimately show "list_all2 (fits_item U) (lit_ci (p # w)) ws"
      using l(1) l'(1) by (simp add: lit_ci_def)
  qed
qed

lemma cap_lit_ci: "length ws = length w \<Longrightarrow> cap (lit_ci w @ its) (ws @ vs) = cap its vs"
proof (induction w arbitrary: ws)
  case Nil
  then show ?case by (simp add: lit_ci_def)
next
  case (Cons p w)
  then obtain x xs where "ws = x # xs" "length xs = length w"
    by (cases ws) auto
  then show ?case
    using Cons.IH [of xs] by (simp add: lit_ci_def)
qed

lemma fits_space_plus:
  "fits_item U (Item Space (Suc 0) None True False) w \<longleftrightarrow> w \<noteq> [] \<and> list_all is_space w"
  by (cases w) (auto simp: fits_item_def list_all_def)

lemma list_all2_appendE:
  assumes "list_all2 P (xs @ ys) zs"
  obtains us vs where "zs = us @ vs" "list_all2 P xs us" "list_all2 P ys vs"
  using assms by (auto simp: list_all2_append1)

lemma fits_any_lazy: "fits_item U (Item AnyChar 0 None False False) w"
  by (simp add: fits_item_def list_all_def)

lemma fits_digits:
  "fits_item U (Item Digit a (Some b) gr g) w \<longleftrightarrow>
     a \<le> length w \<and> length w \<le> b \<and> list_all (uc_decimal U) w"
  by (auto simp: fits_item_def list_all_def)

lemma fits_lit: "fits_item U (lit c) w \<longleftrightarrow> w = [c]"
  by (cases w) (auto simp: fits_item_def lit_def)

lemma primary_matches_iff:
  "re_matches U DOCNO_RE_1 t g \<longleftrightarrow> (\<exists>d. g = Some d \<and> primary_at U t d)"
proof
  assume "re_matches U DOCNO_RE_1 t g"
  then obtain pre ws rest where t: "t = pre @ concat ws @ rest"
    and fits: "list_all2 (fits_item U) DOCNO_RE_1 ws" and g: "g = cap DOCNO_RE_1 ws"
    unfolding re_matches_def by blast
  from fits [unfolded DOCNO_RE_1_def] obtain a r1 where r1: "ws = a @ r1"
    and a: "list_all2 (fits_item U) (lit_ci NOMER) a"
    and f1: "list_all2 (fits_item U) ([Item Space 1 None True False] @ lit_ci DOKUMENTA @
        [Item AnyChar 0 None False False, Item Digit 4 (Some 9) True True]) r1"
    by (rule list_all2_appendE)
  from f1 obtain b r2 where r2: "r1 = b @ r2"
    and b: "list_all2 (fits_item U) [Item Space 1 None True False] b"
    and f2: "list_all2 (fits_item U) (lit_ci DOKUMENTA @
        [Item AnyChar 0 None False False, Item Digit 4 (Some 9) True True]) r2"
    by (rule list_all2_appendE)
  from f2 obtain c e where r3: "r2 = c @ e"
    and c: "list_all2 (fits_item U) (lit_ci DOKUMENTA) c"
    and e: "list_all2 (fits_item U)
        [Item AnyChar 0 None False False, Item Digit 4 (Some 9) True True] e"
    by (rule list_all2_appendE)
  have ws: "ws = a @ b @ c @ e"
    by (simp add: r1 r2 r3)
  from a obtain l1 where l1: "a = map (\<lambda>c. [c]) l1" "list_all2 (uc_caseless U) NOMER l1"
    using fits_lit_ci by blast
  from c obtain l2 where l2: "c = map (\<lambda>c. [c]) l2" "list_all2 (uc_caseless U) DOKUMENTA l2"
    using fits_lit_ci by blast
  from b obtain w where w: "b = [w]" "w \<noteq> []" "list_all is_space w"
    by (auto simp: list_all2_Cons1 fits_space_plus)
  from e obtain gap d where e': "e = [gap, d]" "4 \<le> length d" "length d \<le> 9"
    "list_all (uc_decimal U) d"
    by (auto simp: list_all2_Cons1 fits_digits)
  have la: "length a = length NOMER" and lc: "length c = length DOKUMENTA"
    using a c by (auto dest: list_all2_lengthD simp: lit_ci_def)
  have "cap DOCNO_RE_1 ws = Some d"
    unfolding DOCNO_RE_1_def ws w e'
    using cap_lit_ci [OF la] cap_lit_ci [OF lc] by simp
  moreover have "t = pre @ l1 @ w @ l2 @ gap @ d @ rest"
    unfolding t ws l1 l2 w e' by (simp add: concat_map_singleton)
  ultimately show "\<exists>d. g = Some d \<and> primary_at U t d"
    unfolding primary_at_def using g l1(2) l2(2) w(2,3) e'(2,3,4) by blast
next
  assume "\<exists>d. g = Some d \<and> primary_at U t d"
  then obtain d pre l1 w l2 gap rest where g: "g = Some d"
    and t: "t = pre @ l1 @ w @ l2 @ gap @ d @ rest"
    and l1: "list_all2 (uc_caseless U) NOMER l1" and w: "w \<noteq> []" "list_all is_space w"
    and l2: "list_all2 (uc_caseless U) DOKUMENTA l2"
    and d: "4 \<le> length d" "length d \<le> 9" "list_all (uc_decimal U) d"
    unfolding primary_at_def by blast
  let ?a = "map (\<lambda>c. [c]) l1" and ?c = "map (\<lambda>c. [c]) l2"
  let ?ws = "?a @ [w] @ ?c @ [gap, d]"
  have a: "list_all2 (fits_item U) (lit_ci NOMER) ?a"
    using fits_lit_ci l1 by blast
  have c: "list_all2 (fits_item U) (lit_ci DOKUMENTA) ?c"
    using fits_lit_ci l2 by blast
  have la: "length ?a = length NOMER" and lc: "length ?c = length DOKUMENTA"
    using l1 l2 by (auto dest: list_all2_lengthD)
  have "list_all2 (fits_item U) DOCNO_RE_1 ?ws"
    unfolding DOCNO_RE_1_def
    using a c w d by (intro list_all2_appendI) (simp_all add: fits_space_plus fits_any_lazy fits_digits)
  moreover have "cap DOCNO_RE_1 ?ws = Some d"
    unfolding DOCNO_RE_1_def
    using cap_lit_ci [OF la] cap_lit_ci [OF lc] by simp
  moreover have "t = pre @ concat ?ws @ rest"
    unfolding t by (simp add: concat_map_singleton)
  ultimately show "re_matches U DOCNO_RE_1 t g"
    unfolding re_matches_def g by metis
qed

lemma fallback_matches_iff:
  "re_matches U DOCNO_RE_2 t g \<longleftrightarrow> (\<exists>d. g = Some d \<and> fallback_at U t d)"
proof
  assume "re_matches U DOCNO_RE_2 t g"
  then obtain pre ws rest where t: "t = pre @ concat ws @ rest"
    and fits: "list_all2 (fits_item U) DOCNO_RE_2 ws" and g: "g = cap DOCNO_RE_2 ws"
    unfolding re_matches_def by blast
  from fits obtain d w dd p1 mm p2 yyyy where ws: "ws = [d, w, dd, p1, mm, p2, yyyy]"
    and d: "1 \<le> length d" "length d \<le> 9" "list_all (uc_decimal U) d"
    and w: "w \<noteq> []" "list_all is_space w"
    and dd: "length dd = 2" "list_all (uc_decimal U) dd"
    and mm: "length mm = 2" "list_all (uc_decimal U) mm"
    and yy: "length yyyy = 4" "list_all (uc_decimal U) yyyy"
    and p: "p1 = [46]" "p2 = [46]"
    unfolding DOCNO_RE_2_def
    by (auto simp: list_all2_Cons1 fits_digits fits_space_plus fits_lit)
  have "date_token U (dd @ [46] @ mm @ [46] @ yyyy)"
    unfolding date_token_def using dd mm yy by blast
  moreover have "t = pre @ d @ w @ (dd @ [46] @ mm @ [46] @ yyyy) @ rest"
    unfolding t ws p by simp
  moreover have "g = Some d"
    unfolding g ws DOCNO_RE_2_def by simp
  ultimately show "\<exists>d. g = Some d \<and> fallback_at U t d"
    unfolding fallback_at_def using d w by blast
next
  assume "\<exists>d. g = Some d \<and> fallback_at U t d"
  then obtain d pre w x rest where g: "g = Some d"
    and t: "t = pre @ d @ w @ x @ rest"
    and d: "1 \<le> length d" "length d \<le> 9" "list_all (uc_decimal U) d"
    and w: "w \<noteq> []" "list_all is_space w" and x: "date_token U x"
    unfolding fallback_at_def by blast
  from x obtain dd mm yyyy where x': "x = dd @ [46] @ mm @ [46] @ yyyy"
    and dd: "length dd = 2" "list_all (uc_decimal U) dd"
    and mm: "length mm = 2" "list_all (uc_decimal U) mm"
    and yy: "length yyyy = 4" "list_all (uc_decimal U) yyyy"
    unfolding date_token_def by blast
  let ?ws = "[d, w, dd, [46], mm, [46], yyyy]"
  have "list_all2 (fits_item U) DOCNO_RE_2 ?ws"
    unfolding DOCNO_RE_2_def using d w dd mm yy
    by (simp add: fits_digits fits_space_plus fits_lit)
  moreover have "cap DOCNO_RE_2 ?ws = Some d"
    unfolding DOCNO_RE_2_def by simp
  moreover have "t = pre @ concat ?ws @ rest"
    unfolding t x' by simp
  ultimately show "re_matches U DOCNO_RE_2 t g"
    unfolding re_matches_def g by metis
qed

lemma primary_at_iff_search: "(\<exists>d. primary_at U t d) \<longleftrightarrow> re_search U DOCNO_RE_1 t \<noteq> None"
proof
  assume "\<exists>d. primary_at U t d"
  then have "\<exists>g. re_matches U DOCNO_RE_1 t g"
    using primary_matches_iff by blast
  then show "re_search U DOCNO_RE_1 t \<noteq> None"
    using re_search_complete by blast
next
  assume "re_search U DOCNO_RE_1 t \<noteq> None"
  then obtain g where "re_search U DOCNO_RE_1 t = Some g"
    by blast
  then show "\<exists>d. primary_at U t d"
    using re_search_sound primary_matches_iff by blast
qed

lemma fallback_at_iff_search: "(\<exists>d. fallback_at U t d) \<longleftrightarrow> re_search U DOCNO_RE_2 t \<noteq> None"
proof
  assume "\<exists>d. fallback_at U t d"
  then have "\<exists>g. re_matches U DOCNO_RE_2 t g"
    using fallback_matches_iff by blast
  then show "re_search U DOCNO_RE_2 t \<noteq> None"
    using re_search_complete by blast
next
  assume "re_search U DOCNO_RE_2 t \<noteq> None"
  then obtain g where "re_search U DOCNO_RE_2 t = Some g"
    by blast
  then show "\<exists>d. fallback_at U t d"
    using re_search_sound fallback_matches_iff by blast
qed

lemma search_primary_Some:
  "re_search U DOCNO_RE_1 t = Some g \<Longrightarrow> \<exists>d. g = Some d \<and> primary_at U t d"
  using re_search_sound primary_matches_iff by blast

lemma search_fallback_Some:
  "re_search U DOCNO_RE_2 t = Some g \<Longrightarrow> \<exists>d. g = Some d \<and> fallback_at U t d"
  using re_search_sound fallback_matches_iff by blast

lemma extract_doc_number_unfold:
  "extract_doc_number U pages =
     (case re_search U DOCNO_RE_1 (join_pages pages) of
        Some g \<Rightarrow> g
      | None \<Rightarrow> (case re_search U DOCNO_RE_2 (join_pages pages) of Some g \<Rightarrow> g | None \<Rightarrow> None))"
  by (simp add: extract_doc_number_def Let_def)

lemma extract_doc_number_cases:
  "extract_doc_number U pages = Some d \<Longrightarrow>
     primary_at U (join_pages pages) d \<or>
     (re_search U DOCNO_RE_1 (join_pages pages) = None \<and> fallback_at U (join_pages pages) d)"
  unfolding extract_doc_number_def Let_def
  by (auto split: option.splits dest: search_primary_Some search_fallback_Some)

lemma extract_doc_number_nonempty: "extract_doc_number U pages = Some d \<Longrightarrow> d \<noteq> []"
  by (auto dest!: extract_doc_number_cases simp: primary_at_def fallback_at_def)

text \<open>
  Claim C9, amended. The patterns are tried in a fixed order and the first that matches
  decides: when the text holds the label phrase followed, possibly across line breaks, by a
  run of 4 to 9 digits, the result is such a run; otherwise, when it holds 1 to 9 digits
  followed by whitespace and a date token (two digits, a point, two digits, a point, four
  digits), the result is such digits, which may be the tail of a longer run of digits;
  when neither pattern matches, the result is "not found" and no error.
\<close>

theorem identifier_patterns_in_order:
  "((\<exists>d. primary_at U (join_pages pages) d) \<longrightarrow>
      (\<exists>d. extract_doc_number U pages = Some d \<and> primary_at U (join_pages pages) d)) \<and>
   (\<not> (\<exists>d. primary_at U (join_pages pages) d) \<and> (\<exists>d. fallback_at U (join_pages pages) d) \<longrightarrow>
      (\<exists>d. extract_doc_number U pages = Some d \<and> fallback_at U (join_pages pages) d)) \<and>
   (\<not> (\<exists>d. primary_at U (join_pages pages) d) \<and> \<not> (\<exists>d. fallback_at U (join_pages pages) d) \<longrightarrow>
      extract_doc_number U pages = None)"
proof (intro conjI impI)
  assume "\<exists>d. primary_at U (join_pages pages) d"
  then obtain g where g: "re_search U DOCNO_RE_1 (join_pages pages) = Some g"
    unfolding primary_at_iff_search by blast
  from search_primary_Some [OF g] obtain d where "g = Some d" "primary_at U (join_pages pages) d"
    by blast
  then show "\<exists>d. extract_doc_number U pages = Some d \<and> primary_at U (join_pages pages) d"
    using g by (simp add: extract_doc_number_def)
next
  assume "\<not> (\<exists>d. primary_at U (join_pages pages) d) \<and> (\<exists>d. fallback_at U (join_pages pages) d)"
  then have n: "re_search U DOCNO_RE_1 (join_pages pages) = None"
    and "re_search U DOCNO_RE_2 (join_pages pages) \<noteq> None"
    unfolding primary_at_iff_search fallback_at_iff_search by simp_all
  then obtain g where g: "re_search U DOCNO_RE_2 (join_pages pages) = Some g"
    by blast
  from search_fallback_Some [OF g] obtain d where "g = Some d" "fallback_at U (join_pages pages) d"
    by blast
  then show "\<exists>d. extract_doc_number U pages = Some d \<and> fallback_at U (join_pages pages) d"
    using g n by (simp add: extract_doc_number_def)
next
  assume "\<not> (\<exists>d. primary_at U (join_pages pages) d) \<and> \<not> (\<exists>d. fallback_at U (join_pages pages) d)"
  then have "re_search U DOCNO_RE_1 (join_pages pages) = None"
    and "re_search U DOCNO_RE_2 (join_pages pages) = None"
    unfolding primary_at_iff_search fallback_at_iff_search by simp_all
  then show "extract_doc_number U pages = None"
    by (simp add: extract_doc_number_def)
qed

lemmas rx_eval =
  join_pages_def re_search_def DOCNO_RE_1_def DOCNO_RE_2_def lit_ci_def lit_def NOMER_def
  DOKUMENTA_def counts_def ucd_basic_def u_def ascii_digit_def is_space_def lower_basic_def
  upt_rec

lemma doc_text_both_patterns:
  "join_pages [Some (u ''7 01.02.2020''), None,
       Some ([0x41D, 0x41E, 0x43C, 0x435, 0x440] @ u '' '' @ DOKUMENTA @ u '': 123 1234567890'')] =
     u ''7 01.02.2020'' @ [10, 10, 0x41D, 0x41E, 0x43C, 0x435, 0x440] @ u '' '' @ DOKUMENTA @
     u '': 123 1234567890''"
  by (simp add: join_pages_def)

lemma search_both_primary:
  "re_search ucd_basic DOCNO_RE_1
     (u ''7 01.02.2020'' @ [10, 10, 0x41D, 0x41E, 0x43C, 0x435, 0x440] @ u '' '' @ DOKUMENTA @
      u '': 123 1234567890'') = Some (Some (u ''123456789''))"
  by (simp add: rx_eval)

lemma search_fallback_only:
  "re_search ucd_basic DOCNO_RE_1 (u ''id 77 01.02.2020'') = None"
  "re_search ucd_basic DOCNO_RE_2 (u ''id 77 01.02.2020'') = Some (Some (u ''77''))"
  by (simp_all add: rx_eval)

lemma search_neither:
  "re_search ucd_basic DOCNO_RE_1 (u ''no number'') = None"
  "re_search ucd_basic DOCNO_RE_2 (u ''no number'') = None"
  by (simp_all add: rx_eval)

lemma search_ten_digits:
  "re_search ucd_basic DOCNO_RE_1 (u ''1234567890 01.02.2020'') = None"
  "re_search ucd_basic DOCNO_RE_2 (u ''1234567890 01.02.2020'') = Some (Some (u ''234567890''))"
  by (simp_all add: rx_eval)

theorem identifier_patterns_in_order_witness:
  "(\<exists>d. primary_at ucd_basic (join_pages [Some (u ''7 01.02.2020''), None,
       Some ([0x41D, 0x41E, 0x43C, 0x435, 0x440] @ u '' '' @ DOKUMENTA @ u '': 123 1234567890'')]) d) \<and>
   (\<exists>d. fallback_at ucd_basic (join_pages [Some (u ''7 01.02.2020''), None,
       Some ([0x41D, 0x41E, 0x43C, 0x435, 0x440] @ u '' '' @ DOKUMENTA @ u '': 123 1234567890'')]) d) \<and>
   extract_doc_number ucd_basic [Some (u ''7 01.02.2020''), None,
       Some ([0x41D, 0x41E, 0x43C, 0x435, 0x440] @ u '' '' @ DOKUMENTA @ u '': 123 1234567890'')] =
     Some (u ''123456789'') \<and>
   \<not> (\<exists>d. primary_at ucd_basic (join_pages [Some (u ''id 77 01.02.2020'')]) d) \<and>
   (\<exists>d. fallback_at ucd_basic (join_pages [Some (u ''id 77 01.02.2020'')]) d) \<and>
   extract_doc_number ucd_basic [Some (u ''id 77 01.02.2020'')] = Some (u ''77'') \<and>
   \<not> (\<exists>d. primary_at ucd_basic (join_pages [Some (u ''no number'')]) d) \<and>
   \<not> (\<exists>d. fallback_at ucd_basic (join_pages [Some (u ''no number'')]) d) \<and>
   extract_doc_number ucd_basic [Some (u ''no number'')] = None"
proof -
  let ?p1 = "[Some (u ''7 01.02.2020''), None,
       Some ([0x41D, 0x41E, 0x43C, 0x435, 0x440] @ u '' '' @ DOKUMENTA @ u '': 123 1234567890'')]"
  let ?p2 = "[Some (u ''id 77 01.02.2020'')]"
  let ?p3 = "[Some (u ''no number'')]"
  have j2: "join_pages ?p2 = u ''id 77 01.02.2020''" and j3: "join_pages ?p3 = u ''no number''"
    by (simp_all add: join_pages_def)
  have a1: "\<exists>d. primary_at ucd_basic (join_pages ?p1) d"
    unfolding primary_at_iff_search doc_text_both_patterns search_both_primary by simp
  have f1: "\<exists>d. fallback_at ucd_basic (join_pages ?p1) d"
    unfolding fallback_at_iff_search doc_text_both_patterns by (simp add: rx_eval)
  have e1: "extract_doc_number ucd_basic ?p1 = Some (u ''123456789'')"
    unfolding extract_doc_number_unfold doc_text_both_patterns search_both_primary by simp
  have a2: "\<not> (\<exists>d. primary_at ucd_basic (join_pages ?p2) d)"
    and b2: "\<exists>d. fallback_at ucd_basic (join_pages ?p2) d"
    unfolding primary_at_iff_search fallback_at_iff_search j2 search_fallback_only by simp_all
  have a3: "\<not> (\<exists>d. primary_at ucd_basic (join_pages ?p3) d)"
    and b3: "\<not> (\<exists>d. fallback_at ucd_basic (join_pages ?p3) d)"
    unfolding primary_at_iff_search fallback_at_iff_search j3 search_neither by simp_all
  have e2: "extract_doc_number ucd_basic ?p2 = Some (u ''77'')"
    unfolding extract_doc_number_unfold j2 search_fallback_only by simp
  have e3: "extract_doc_number ucd_basic ?p3 = None"
    using identifier_patterns_in_order [of ucd_basic ?p3] a3 b3 by blast
  have "\<exists>d. extract_doc_number ucd_basic ?p1 = Some d \<and> primary_at ucd_basic (join_pages ?p1) d"
    using identifier_patterns_in_order [of ucd_basic ?p1] a1 by blast
  moreover have "\<exists>d. extract_doc_number ucd_basic ?p2 = Some d \<and> fallback_at ucd_basic (join_pages ?p2) d"
    using identifier_patterns_in_order [of ucd_basic ?p2] a2 b2 by blast
  ultimately show ?thesis
    using a1 f1 e1 a2 b2 e2 a3 b3 e3 by blast
qed

text \<open>
  Claim C9, as stated, has the fallback match a standalone run of 1 to 9 digits. The
  pattern has no boundary before the digits: on a run of 10 digits followed by a date it
  returns the last 9 of them, which are preceded by a digit in the text.
\<close>

theorem identifier_fallback_standalone_counterexample:
  "extract_doc_number ucd_basic [Some (u ''1234567890 01.02.2020'')] = Some (u ''234567890'') \<and>
   re_search ucd_basic DOCNO_RE_1 (u ''1234567890 01.02.2020'') = None \<and>
   \<not> fallback_standalone_at ucd_basic (u ''1234567890 01.02.2020'') (u ''234567890'')"
proof -
  have j: "join_pages [Some (u ''1234567890 01.02.2020'')] = u ''1234567890 01.02.2020''"
    by (simp add: join_pages_def)
  have "extract_doc_number ucd_basic [Some (u ''1234567890 01.02.2020'')] = Some (u ''234567890'')"
    unfolding extract_doc_number_unfold j search_ten_digits by simp
  moreover have "\<not> fallback_standalone_at ucd_basic (u ''1234567890 01.02.2020'') (u ''234567890'')"
    by (simp add: fallback_standalone_at_def u_def ucd_basic_def ascii_digit_def upt_rec)
  ultimately show ?thesis
    using search_ten_digits by simp
qed



section \<open>Properties of the totals calculator and of the empty batch\<close>


lemma r_code_with_total [simp]: "r_code (with_total n r) = r_code r"
  and r_label_with_total [simp]: "r_label (with_total n r) = r_label r"
  by (simp_all add: with_total_def)

lemma cell_with_total: "j < n \<Longrightarrow> cell (with_total n r) j = cell r j"
  by (simp add: with_total_def cell_def nth_append)


lemma sorted_sort_by_code:
  "sorted (map (\<lambda>r. code_key num (r_code r)) (map (with_total n) (sort_by_code num rs)))"
  by (simp add: sort_by_code_def comp_def)

lemma mset_sort_by_code: "mset (sort_by_code num rs) = mset rs"
  by (simp add: sort_by_code_def)

lemma add_totals_rows:
  "rows f \<noteq> [] \<Longrightarrow>
     rows (add_totals num f) =
       map (with_total (length (columns f))) (sort_by_code num (rows f)) @
       [totals_row (length (columns f)) (map (with_total (length (columns f))) (sort_by_code num (rows f)))]"
  by (simp add: add_totals_def Let_def)


lemma add_totals_empty: "rows f = [] \<Longrightarrow> add_totals num f = f"
  by (simp add: add_totals_def)




lemma row_data_with_total: "row_data n (with_total n r) = row_data n r"
  by (simp add: row_data_def cell_with_total)

lemma map_row_data_with_total:
  "map (row_data n) (map (with_total n) rs) = map (row_data n) rs"
  by (simp add: row_data_with_total)

lemma add_totals_heap_nonempty:
  assumes "rows (h ! a) \<noteq> []"
  shows "add_totals_heap num h a =
     (h @ [h ! a,
           \<lparr>columns = columns (h ! a) @ [ITOGO_STROKA],
            rows = map (with_total (length (columns (h ! a)))) (sort_by_code num (rows (h ! a)))\<rparr>,
           add_totals num (h ! a)],
      length h + 2)"
  using assms
  by (simp add: add_totals_heap_def alloc_def add_totals_def Let_def nth_append)

text \<open>
  Claim C10. On a table with at least one row the totals calculator leaves every frame of
  the store as it was, its argument included, and returns a frame allocated by the call.
  The rows of that frame are the rows of the argument, in the order of the code sort, each
  with its label, code and value cells, followed by one totals row: one row more than the
  argument has.
\<close>

theorem totals_frame_effect:
  fixes num :: "pystr \<Rightarrow> 'n::linorder option"
  assumes "a < length h" and "rows (h ! a) \<noteq> []"
  shows "(\<forall>b<length h. fst (add_totals_heap num h a) ! b = h ! b) \<and>
     length h \<le> snd (add_totals_heap num h a) \<and>
     snd (add_totals_heap num h a) < length (fst (add_totals_heap num h a)) \<and>
     fst (add_totals_heap num h a) ! snd (add_totals_heap num h a) = add_totals num (h ! a) \<and>
     length (rows (add_totals num (h ! a))) = Suc (length (rows (h ! a))) \<and>
     mset (map (row_data (length (columns (h ! a)))) (butlast (rows (add_totals num (h ! a))))) =
       mset (map (row_data (length (columns (h ! a)))) (rows (h ! a))) \<and>
     sorted (map (\<lambda>r. code_key num (r_code r)) (butlast (rows (add_totals num (h ! a))))) \<and>
     r_label (last (rows (add_totals num (h ! a)))) = Some ITOGO_STOLBEC \<and>
     r_code (last (rows (add_totals num (h ! a)))) = None"
proof -
  let ?n = "length (columns (h ! a))"
  let ?df = "map (with_total ?n) (sort_by_code num (rows (h ! a)))"
  note hp = add_totals_heap_nonempty [OF assms(2), of num]
  have rs: "rows (add_totals num (h ! a)) = ?df @ [totals_row ?n ?df]"
    using assms(2) by (rule add_totals_rows)
  have frame: "\<forall>b<length h. fst (add_totals_heap num h a) ! b = h ! b"
    by (simp add: hp nth_append)
  have fresh: "length h \<le> snd (add_totals_heap num h a)"
    "snd (add_totals_heap num h a) < length (fst (add_totals_heap num h a))"
    "fst (add_totals_heap num h a) ! snd (add_totals_heap num h a) = add_totals num (h ! a)"
    by (simp_all add: hp nth_append)
  have len: "length (rows (add_totals num (h ! a))) = Suc (length (rows (h ! a)))"
    by (simp add: rs sort_by_code_def)
  have "mset (map (row_data ?n) ?df) = mset (map (row_data ?n) (sort_by_code num (rows (h ! a))))"
    by (simp only: map_row_data_with_total)
  also have "\<dots> = mset (map (row_data ?n) (rows (h ! a)))"
    by (simp only: mset_map mset_sort_by_code)
  finally have perm: "mset (map (row_data ?n) (butlast (rows (add_totals num (h ! a))))) =
       mset (map (row_data ?n) (rows (h ! a)))"
    by (simp add: rs)
  have srt: "sorted (map (\<lambda>r. code_key num (r_code r)) (butlast (rows (add_totals num (h ! a)))))"
    using sorted_sort_by_code [of num ?n "rows (h ! a)"] by (simp add: rs)
  have lst: "r_label (last (rows (add_totals num (h ! a)))) = Some ITOGO_STOLBEC"
    "r_code (last (rows (add_totals num (h ! a)))) = None"
    by (simp_all add: rs totals_row_def)
  from frame fresh len perm srt lst show ?thesis
    by blast
qed

lemma add_totals_heap_empty:
  "rows (h ! a) = [] \<Longrightarrow> add_totals_heap num h a = (h, a)"
  by (simp add: add_totals_heap_def)

lemma extract_no_number: "extract_doc_number ucd_basic [Some (u ''no number'')] = None"
proof -
  have "join_pages [Some (u ''no number'')] = u ''no number''"
    by (simp add: join_pages_def)
  then show ?thesis
    unfolding extract_doc_number_unfold using search_neither by simp
qed

lemma extract_fallback_77:
  "extract_doc_number ucd_basic [Some (u ''id 77 01.02.2020'')] = Some (u ''77'')"
proof -
  have "join_pages [Some (u ''id 77 01.02.2020'')] = u ''id 77 01.02.2020''"
    by (simp add: join_pages_def)
  then show ?thesis
    unfolding extract_doc_number_unfold using search_fallback_only by simp
qed



theorem totals_frame_effect_witness:
  "0 < length [ex_codes] \<and> rows ([ex_codes] ! 0) \<noteq> [] \<and>
   fst (add_totals_heap to_numeric [ex_codes] 0) ! 0 = ex_codes \<and>
   length [ex_codes] \<le> snd (add_totals_heap to_numeric [ex_codes] 0) \<and>
   fst (add_totals_heap to_numeric [ex_codes] 0) ! snd (add_totals_heap to_numeric [ex_codes] 0) =
     add_totals to_numeric ex_codes \<and>
   length (rows (add_totals to_numeric ex_codes)) = 4"
proof -
  have ne: "0 < length [ex_codes]" "rows ([ex_codes] ! 0) \<noteq> []"
    by (simp_all add: ex_codes_def)
  have "length (rows ([ex_codes] ! 0)) = 3"
    by (simp add: ex_codes_def)
  then show ?thesis
    using totals_frame_effect [where h = "[ex_codes]" and a = 0 and num = to_numeric, OF ne] ne
    by simp
qed

lemma build_doc_df_skipped:
  assumes "extract_doc_number U ps = None \<or> choose_and_clean_table ts = None"
  shows "\<exists>docno. build_doc_df num U path ps ts = Inr (None, docno)"
  using assms by (auto simp: build_doc_df_def split: option.splits)

lemma collect_none_eligible:
  assumes "\<forall>doc\<in>set docs. extract_doc_number U (doc_pages doc) = None \<or>
             choose_and_clean_table (doc_tables doc) = None"
  shows "collect_doc_dfs num U docs = Inr []"
  using assms
proof (induction docs)
  case Nil
  show ?case by simp
next
  case (Cons doc docs)
  then have "extract_doc_number U (doc_pages doc) = None \<or>
      choose_and_clean_table (doc_tables doc) = None"
    by simp
  from build_doc_df_skipped [OF this] obtain docno where
    "build_doc_df num U (doc_path doc) (doc_pages doc) (doc_tables doc) = Inr (None, docno)"
    by blast
  moreover have "collect_doc_dfs num U docs = Inr []"
    using Cons by simp
  ultimately show ?case
    by (simp split: option.splits)
qed

text \<open>
  Claim C6, amended. When no document is eligible (each lacks an identifier or a table) the
  pipeline hands the empty table of the label and code columns to the totals calculator,
  which returns it as it is: the result has no row and no total column, and no error is
  raised.
\<close>

theorem no_eligible_documents_empty_table:
  fixes num :: "pystr \<Rightarrow> rat option"
  assumes "\<forall>doc\<in>set docs. extract_doc_number U (doc_pages doc) = None \<or>
             choose_and_clean_table (doc_tables doc) = None"
  shows "process_pdfs num U docs = Inr \<lparr>columns = [], rows = []\<rparr>"
  using collect_none_eligible [OF assms, of num]
  by (simp add: process_pdfs_def add_totals_def)

theorem no_eligible_documents_empty_table_witness:
  "extract_doc_number ucd_basic (doc_pages doc_no_number) = None \<and>
   choose_and_clean_table (doc_tables doc_no_table) = None \<and>
   process_pdfs to_numeric ucd_basic [doc_no_number, doc_no_table] = Inr \<lparr>columns = [], rows = []\<rparr>"
proof -
  have a: "extract_doc_number ucd_basic (doc_pages doc_no_number) = None"
    by (simp add: doc_no_number_def extract_no_number)
  have b: "choose_and_clean_table (doc_tables doc_no_table) = None"
    by (simp add: doc_no_table_def choose_and_clean_table_def choose_from_step survives_def
        eligible_def grid_table_rows)
  have "\<forall>doc\<in>set [doc_no_number, doc_no_table].
      extract_doc_number ucd_basic (doc_pages doc) = None \<or>
      choose_and_clean_table (doc_tables doc) = None"
    using a b by simp
  from no_eligible_documents_empty_table [OF this, of to_numeric] a b show ?thesis
    by simp
qed

text \<open>
  Claim C6, as stated, has the totals calculator produce a totals row and a total column
  of 0 from the empty table. The source returns the empty table at
  \<^verbatim>\<open>if final_df is None or final_df.empty: return final_df\<close>.
\<close>

theorem no_eligible_documents_counterexample:
  "process_pdfs to_numeric ucd_basic [] = Inr \<lparr>columns = [], rows = []\<rparr> \<and>
   process_pdfs to_numeric ucd_basic [doc_no_number] = Inr \<lparr>columns = [], rows = []\<rparr> \<and>
   rows \<lparr>columns = [], rows = []\<rparr> = [] \<and> columns \<lparr>columns = [], rows = []\<rparr> = []"
  by (simp add: process_pdfs_def add_totals_def build_doc_df_def doc_no_number_def
      extract_no_number)

section \<open>Properties of the document table builder\<close>

lemma choose_framed_table:
  assumes "body \<noteq> []" and "2 < length hdr"
  shows "choose_and_clean_table [framed_table hdr body] = Some \<lparr>rt_columns = hdr, rt_rows = body\<rparr>"
proof -
  have "trim_rows 0 (rt_rows (framed_table hdr body)) = hdr # body"
    by (simp add: trim_rows_def framed_table_def)
  moreover have "survives 0 (framed_table hdr body)"
    using assms
    by (cases body) (simp_all add: survives_def eligible_def trim_rows_def framed_table_def)
  ultimately show ?thesis
    by (simp add: choose_and_clean_table_def choose_from_step headed_def)
qed

lemma required_labels: "required = [u ''2'', u ''3'', u ''10'']"
  by (simp add: required_def u_def)

lemma filter_required_empty:
  "filter (\<lambda>c. Str c \<notin> set hdr) required = [] \<longleftrightarrow> (\<forall>c\<in>set required. Str c \<in> set hdr)"
  by (auto simp: filter_empty_conv)









text \<open>
  Claim C7. When the identifier of a document is found and the header of its selected table
  lacks one of the labels "2", "3", "10", the builder raises: the result is the error
  \<open>ColumnsMissing\<close>, not a skipped document, and the error carries the path of the
  document, the required labels that are missing, which are at least one, and the labels
  the table has.
\<close>

theorem missing_columns_error:
  assumes "extract_doc_number U ps = Some d"
    and "choose_and_clean_table ts = Some df"
    and "\<exists>c\<in>set required. Str c \<notin> set (rt_columns df)"
  shows "build_doc_df num U path ps ts =
       Inl (ColumnsMissing path (filter (\<lambda>c. Str c \<notin> set (rt_columns df)) required) (rt_columns df)) \<and>
     filter (\<lambda>c. Str c \<notin> set (rt_columns df)) required \<noteq> [] \<and>
     set (filter (\<lambda>c. Str c \<notin> set (rt_columns df)) required) =
       {c \<in> set required. Str c \<notin> set (rt_columns df)} \<and>
     required = [u ''2'', u ''3'', u ''10'']"
proof -
  have ne: "d \<noteq> []"
    using assms(1) by (rule extract_doc_number_nonempty)
  have miss: "filter (\<lambda>c. Str c \<notin> set (rt_columns df)) required \<noteq> []"
    using assms(3) by (simp add: filter_required_empty)
  then have "build_doc_df num U path ps ts =
       Inl (ColumnsMissing path (filter (\<lambda>c. Str c \<notin> set (rt_columns df)) required) (rt_columns df))"
    using assms(1,2) ne by (simp add: build_doc_df_def Let_def)
  moreover have "set (filter (\<lambda>c. Str c \<notin> set (rt_columns df)) required) =
       {c \<in> set required. Str c \<notin> set (rt_columns df)}"
    by (rule set_filter)
  ultimately show ?thesis
    using miss required_labels by blast
qed

lemma choose_bad_header:
  "choose_and_clean_table (doc_tables doc_bad_header) =
     Some \<lparr>rt_columns = [Str (u ''2''), Num (u ''3''), Str (u ''9'')],
           rt_rows = [[Str (u ''a''), Str (u ''5''), Str (u ''1'')]]\<rparr>"
  by (simp add: doc_bad_header_def choose_framed_table)

theorem missing_columns_error_witness:
  "extract_doc_number ucd_basic (doc_pages doc_bad_header) = Some (u ''77'') \<and>
   choose_and_clean_table (doc_tables doc_bad_header) =
     Some \<lparr>rt_columns = [Str (u ''2''), Num (u ''3''), Str (u ''9'')],
           rt_rows = [[Str (u ''a''), Str (u ''5''), Str (u ''1'')]]\<rparr> \<and>
   build_doc_df to_numeric ucd_basic (doc_path doc_bad_header) (doc_pages doc_bad_header)
       (doc_tables doc_bad_header) =
     Inl (ColumnsMissing (u ''d.pdf'') [u ''3'', u ''10'']
            [Str (u ''2''), Num (u ''3''), Str (u ''9'')])"
proof -
  let ?df = "\<lparr>rt_columns = [Str (u ''2''), Num (u ''3''), Str (u ''9'')],
           rt_rows = [[Str (u ''a''), Str (u ''5''), Str (u ''1'')]]\<rparr>"
  have e: "extract_doc_number ucd_basic (doc_pages doc_bad_header) = Some (u ''77'')"
    by (simp add: doc_bad_header_def extract_fallback_77)
  have m: "\<exists>c\<in>set required. Str c \<notin> set (rt_columns ?df)"
    by (simp add: required_def u_def)
  have f: "filter (\<lambda>c. Str c \<notin> set (rt_columns ?df)) required = [u ''3'', u ''10'']"
    by (simp add: required_def u_def)
  have p: "doc_path doc_bad_header = u ''d.pdf''"
    by (simp add: doc_bad_header_def)
  from missing_columns_error [OF e choose_bad_header m, of to_numeric "doc_path doc_bad_header"]
  show ?thesis
    using e choose_bad_header unfolding f p by simp
qed







section \<open>Properties of the batch reconciler\<close>















end
